theory Spec2Isabelle
  imports Complex_Main "HOL-Library.AList" "HOL-Library.Word"
begin

section \<open>Python exceptions as values\<close>

text \<open>
  Every exception class that one of the modelled functions can raise is a constructor;
  a function that may raise returns \<open>error + 'a\<close> with \<open>Inl\<close> for the exception.
\<close>

datatype error =
    ProtocolError
  | StructError
  | UnicodeDecodeError
  | IndexError
  | TypeError
  | ValueError
  | AttributeError
  | OSError
  | JSONDecodeError
  | Retry

section \<open>Python floats\<close>

text \<open>
  A Python \<open>float\<close> is an IEEE 754 binary64 number. A finite float is taken as the real
  number it denotes, and an arithmetic operation on floats returns the exact result rounded
  to the nearest float, a tie going to the float whose significand is even. A float has a
  significand of 53 bits and is a multiple of \<open>2 ^ (-1074)\<close>. Infinities and NaN are not
  represented: the values are those below \<open>2 ^ 1024\<close> in magnitude.
\<close>

text \<open>The number of binary digits of a natural number (\<open>int.bit_length\<close>).\<close>

fun bit_length :: "nat \<Rightarrow> nat" where
  "bit_length n = (if n = 0 then 0 else Suc (bit_length (n div 2)))"

declare bit_length.simps [simp del]

text \<open>The binary exponent of a positive real \<open>x\<close>: the \<open>e\<close> with \<open>2 ^ e \<le> x < 2 ^ (e + 1)\<close>.\<close>

definition binexp :: "real \<Rightarrow> int" where
  "binexp x =
     (if 1 \<le> x then int (bit_length (nat \<lfloor>x\<rfloor>)) - 1
      else - int (bit_length (nat (\<lceil>1 / x\<rceil> - 1))))"

definition pow2 :: "int \<Rightarrow> real" where
  "pow2 q = (if 0 \<le> q then 2 ^ nat q else 1 / 2 ^ nat (- q))"

definition round_half_even :: "real \<Rightarrow> int" where
  "round_half_even y =
     (let n = \<lfloor>y\<rfloor>; r = y - of_int n
      in if r < 1 / 2 then n
         else if 1 / 2 < r then n + 1
         else if even n then n else n + 1)"

text \<open>Rounding to the nearest float: the spacing of the floats around \<open>x\<close> is \<open>2 ^ q\<close>.\<close>

definition to_double :: "real \<Rightarrow> real" where
  "to_double x =
     (if x = 0 then 0
      else
        (let q = max (binexp \<bar>x\<bar> - 52) (- 1074)
         in of_int (round_half_even (x / pow2 q)) * pow2 q))"

definition fadd :: "real \<Rightarrow> real \<Rightarrow> real" where
  "fadd x y = to_double (x + y)"

definition fsub :: "real \<Rightarrow> real \<Rightarrow> real" where
  "fsub x y = to_double (x - y)"

definition fmul :: "real \<Rightarrow> real \<Rightarrow> real" where
  "fmul x y = to_double (x * y)"

definition fdiv :: "real \<Rightarrow> real \<Rightarrow> real" where
  "fdiv x y = to_double (x / y)"

text \<open>An \<open>int\<close> operand of a float operation is converted first (\<open>float(i)\<close>).\<close>

definition float_of_int :: "int \<Rightarrow> real" where
  "float_of_int i = to_double (of_int i)"

section \<open>Metrics collector (FINAL/src/metrics/stats.py)\<close>

text \<open>
  The per-worker tally kept in \<open>worker_stats[worker_id]\<close>; the \<open>defaultdict\<close>
  supplies \<open>default_worker_stat\<close> for a key that is read before it was written.
\<close>

record worker_stat =
  ws_frames_processed :: nat
  ws_total_time_ms :: real
  ws_total_memory_mb :: real

definition default_worker_stat :: worker_stat where
  "default_worker_stat =
     \<lparr>ws_frames_processed = 0, ws_total_time_ms = 0, ws_total_memory_mb = 0\<rparr>"

text \<open>
  The fields of \<open>MetricsCollector\<close>. Latencies are Python floats, the reals they denote;
  \<open>start_time\<close> is the wall clock read at construction, passed in by the caller.
\<close>

record metrics =
  start_time :: real
  frames_processed :: nat
  frames_total :: int
  frames_failed :: nat
  retries_count :: nat
  latencies :: "real list"
  worker_stats :: "string \<rightharpoonup> worker_stat"
  filters_count :: "string \<rightharpoonup> nat"

definition metrics_init :: "real \<Rightarrow> metrics" where
  "metrics_init now =
     \<lparr>start_time = now, frames_processed = 0, frames_total = 0, frames_failed = 0,
      retries_count = 0, latencies = [], worker_stats = Map.empty,
      filters_count = Map.empty\<rparr>"

text \<open>Python truthiness of an optional string: \<open>None\<close> and \<open>""\<close> are false.\<close>

definition truthy_str :: "string option \<Rightarrow> bool" where
  "truthy_str s = (case s of None \<Rightarrow> False | Some t \<Rightarrow> t \<noteq> [])"

definition record_frame ::
  "metrics \<Rightarrow> int \<Rightarrow> real \<Rightarrow> string option \<Rightarrow> string option \<Rightarrow> real \<Rightarrow> bool \<Rightarrow> metrics" where
  "record_frame m frame_number processing_time_ms worker_id filter_applied memory_mb failed =
     (let m1 = m\<lparr>frames_processed := frames_processed m + 1\<rparr>;
          m2 = (if failed then m1\<lparr>frames_failed := frames_failed m1 + 1\<rparr>
                else m1\<lparr>latencies := latencies m1 @ [processing_time_ms]\<rparr>);
          m3 = (if truthy_str worker_id then
                  (let w = the worker_id;
                       s = (case worker_stats m2 w of None \<Rightarrow> default_worker_stat | Some s \<Rightarrow> s)
                   in m2\<lparr>worker_stats := (worker_stats m2)(w \<mapsto>
                        s\<lparr>ws_frames_processed := ws_frames_processed s + 1,
                          ws_total_time_ms := fadd (ws_total_time_ms s) processing_time_ms,
                          ws_total_memory_mb := fadd (ws_total_memory_mb s) memory_mb\<rparr>)\<rparr>)
                else m2)
      in (if truthy_str filter_applied then
            (let f = the filter_applied;
                 c = (case filters_count m3 f of None \<Rightarrow> 0 | Some c \<Rightarrow> c)
             in m3\<lparr>filters_count := (filters_count m3)(f \<mapsto> c + 1)\<rparr>)
          else m3))"

definition record_retry :: "metrics \<Rightarrow> metrics" where
  "record_retry m = m\<lparr>retries_count := retries_count m + 1\<rparr>"

definition set_total_frames :: "metrics \<Rightarrow> int \<Rightarrow> metrics" where
  "set_total_frames m tot = m\<lparr>frames_total := tot\<rparr>"

definition reset :: "metrics \<Rightarrow> real \<Rightarrow> metrics" where
  "reset m now =
     m\<lparr>start_time := now, frames_processed := 0, frames_total := 0, frames_failed := 0,
       retries_count := 0, latencies := [], worker_stats := Map.empty,
       filters_count := Map.empty\<rparr>"

text \<open>One call on the collector, and a sequence of calls run from left to right.\<close>

datatype metrics_call =
    RecordFrame int real "string option" "string option" real bool
  | RecordRetry
  | SetTotalFrames int
  | Reset real

fun metrics_step :: "metrics \<Rightarrow> metrics_call \<Rightarrow> metrics" where
  "metrics_step m (RecordFrame n t w f mem failed) = record_frame m n t w f mem failed"
| "metrics_step m RecordRetry = record_retry m"
| "metrics_step m (SetTotalFrames tot) = set_total_frames m tot"
| "metrics_step m (Reset now) = reset m now"

definition metrics_run :: "metrics \<Rightarrow> metrics_call list \<Rightarrow> metrics" where
  "metrics_run m calls = foldl metrics_step m calls"

definition counters_consistent :: "metrics \<Rightarrow> bool" where
  "counters_consistent m \<longleftrightarrow> frames_processed m = frames_failed m + length (latencies m)"

subsection \<open>Percentiles\<close>

text \<open>Python's \<open>int(k)\<close> on a float truncates towards zero.\<close>

definition py_int :: "real \<Rightarrow> int" where
  "py_int k = (if 0 \<le> k then \<lfloor>k\<rfloor> else \<lceil>k\<rceil>)"

text \<open>Python list indexing: a negative index counts from the end, out of range raises.\<close>

definition py_index :: "'a list \<Rightarrow> int \<Rightarrow> error + 'a" where
  "py_index xs i =
     (if 0 \<le> i then
        (if i < int (length xs) then Inr (xs ! nat i) else Inl IndexError)
      else
        (if - int (length xs) \<le> i then Inr (xs ! nat (int (length xs) + i))
         else Inl IndexError))"

text \<open>
  \<open>get_percentile\<close>. Each arithmetic step is a float operation: the rank
  \<open>k = (len - 1) * percentile / 100\<close> is a product and then a quotient, \<open>c - k\<close> and \<open>k - f\<close>
  convert the integer and subtract, and the result is the sum of two products.
\<close>

definition get_percentile :: "metrics \<Rightarrow> real \<Rightarrow> error + real" where
  "get_percentile m percentile =
     (if latencies m = [] then Inr 0
      else
        (let sorted_latencies = sort (latencies m);
             k = fdiv (fmul (float_of_int (int (length sorted_latencies) - 1)) percentile)
                   (float_of_int 100);
             f = py_int k;
             c = f + 1
         in if c \<ge> int (length sorted_latencies) then py_index sorted_latencies (-1)
            else
              (case py_index sorted_latencies f of
                 Inl e \<Rightarrow> Inl e
               | Inr sf \<Rightarrow>
                  (let d0 = fmul sf (fsub (float_of_int c) k)
                   in (case py_index sorted_latencies c of
                         Inl e \<Rightarrow> Inl e
                       | Inr sc \<Rightarrow>
                          (let d1 = fmul sc (fsub k (float_of_int f))
                           in Inr (fadd d0 d1)))))))"

text \<open>
  The float written \<open>1.3\<close>, and a collector that has recorded two successful frames, each
  with a latency of \<open>1.3\<close> ms.
\<close>

definition float_1_3 :: real where
  "float_1_3 = 5854679515581645 / 4503599627370496"

definition equal_samples :: metrics where
  "equal_samples =
     metrics_run (metrics_init 0)
       [RecordFrame 0 float_1_3 None None 0 False, RecordFrame 1 float_1_3 None None 0 False]"

section \<open>Video writer and frame buffer (FINAL/src/storage/writer.py)\<close>

type_synonym byte = "8 word"

text \<open>
  A frame is a numpy array of shape \<open>(height, width, 3)\<close> and dtype \<open>uint8\<close>: its two
  dimensions and its bytes in row-major order.
\<close>

record frame =
  fheight :: nat
  fwidth :: nat
  fdata :: "byte list"

text \<open>\<open>np.zeros((h, w, 3), dtype=np.uint8)\<close>.\<close>

definition np_zeros :: "nat \<Rightarrow> nat \<Rightarrow> frame" where
  "np_zeros h w = \<lparr>fheight = h, fwidth = w, fdata = replicate (h * w * 3) 0\<rparr>"

text \<open>
  What the OpenCV library does is outside the repository and is a parameter of the
  model: whether a freshly created \<open>cv2.VideoWriter\<close> reports \<open>isOpened()\<close>, for which
  frames its \<open>write\<close> raises, and the pixel values \<open>cv2.resize\<close> interpolates.
\<close>

record cv_env =
  cv_isOpened :: bool
  cv_write_raises :: "frame \<Rightarrow> bool"
  cv_interpolate :: "frame \<Rightarrow> nat \<times> nat \<Rightarrow> byte list"

text \<open>
  \<open>cv2.resize(src, dsize)\<close> returns an image of size \<open>dsize = (width, height)\<close>.
\<close>

definition cv2_resize :: "cv_env \<Rightarrow> frame \<Rightarrow> nat \<times> nat \<Rightarrow> frame" where
  "cv2_resize env src dsize =
     \<lparr>fheight = snd dsize, fwidth = fst dsize, fdata = cv_interpolate env src dsize\<rparr>"

text \<open>
  The fields of \<open>VideoWriter\<close>. \<open>cv_writer\<close> is the \<open>self.writer\<close> attribute: \<open>None\<close>
  until \<open>open\<close> creates the \<open>cv2.VideoWriter\<close>, afterwards the frames that encoder has
  been handed, oldest first.
\<close>

record video_writer =
  frame_size :: "(nat \<times> nat) option"
  cv_writer :: "frame list option"
  is_open :: bool
  frame_count :: nat

definition video_writer_init :: "(nat \<times> nat) option \<Rightarrow> video_writer" where
  "video_writer_init sz =
     \<lparr>frame_size = sz, cv_writer = None, is_open = False, frame_count = 0\<rparr>"

definition vw_open :: "cv_env \<Rightarrow> video_writer \<Rightarrow> frame option \<Rightarrow> error + (video_writer \<times> bool)" where
  "vw_open env w first_frame =
     (if is_open w then Inr (w, True)
      else
        (case (case frame_size w of
                 Some s \<Rightarrow> Inr w
               | None \<Rightarrow>
                  (case first_frame of
                     None \<Rightarrow> Inl ValueError
                   | Some f \<Rightarrow> Inr (w\<lparr>frame_size := Some (fwidth f, fheight f)\<rparr>))) of
           Inl e \<Rightarrow> Inl e
         | Inr w1 \<Rightarrow>
            (let w2 = w1\<lparr>cv_writer := Some []\<rparr>
             in if \<not> cv_isOpened env then Inr (w2, False)
                else Inr (w2\<lparr>is_open := True\<rparr>, True))))"

definition vw_write :: "cv_env \<Rightarrow> video_writer \<Rightarrow> frame \<Rightarrow> error + (video_writer \<times> bool)" where
  "vw_write env w frame =
     (case (if \<not> is_open w then vw_open env w (Some frame) else Inr (w, True)) of
        Inl e \<Rightarrow> Inl e
      | Inr (w1, opened) \<Rightarrow>
         if \<not> opened then Inr (w1, False)
         else
           (case (if Some (fwidth frame, fheight frame) \<noteq> frame_size w1 then
                    (case frame_size w1 of
                       None \<Rightarrow> Inl TypeError
                     | Some s \<Rightarrow> Inr (cv2_resize env frame s))
                  else Inr frame) of
              Inl e \<Rightarrow> Inl e
            | Inr frame' \<Rightarrow>
               (case cv_writer w1 of
                  None \<Rightarrow> Inr (w1, False)
                | Some received \<Rightarrow>
                   if cv_write_raises env frame' then Inr (w1, False)
                   else Inr (w1\<lparr>cv_writer := Some (received @ [frame']),
                                 frame_count := frame_count w1 + 1\<rparr>, True))))"

text \<open>
  The fields of \<open>VideoFrameBuffer\<close>. The dictionary \<open>buffer\<close> is an association list
  with one entry per key. The buffer only calls \<open>self.writer.write(frame)\<close>, whose result
  it discards, and reads \<open>self.writer.frame_size\<close>: the writer is any state \<open>'w\<close> with a
  \<open>write\<close> method \<open>wr\<close> and a \<open>frame_size\<close> attribute \<open>fsz\<close>.
\<close>

record 'w frame_buffer =
  writer :: 'w
  buffer :: "(int \<times> frame) list"
  next_frame_number :: int

definition frame_buffer_init :: "'w \<Rightarrow> 'w frame_buffer" where
  "frame_buffer_init w = \<lparr>writer = w, buffer = [], next_frame_number = 0\<rparr>"

text \<open>The loop of \<open>add_frame\<close>: \<open>while self.next_frame_number in self.buffer\<close>.\<close>

function add_frame_loop ::
  "('w \<Rightarrow> frame \<Rightarrow> 'w) \<Rightarrow> 'w frame_buffer \<Rightarrow> nat \<Rightarrow> 'w frame_buffer \<times> nat" where
  "add_frame_loop wr b written =
     (case map_of (buffer b) (next_frame_number b) of
        None \<Rightarrow> (b, written)
      | Some frame_to_write \<Rightarrow>
          add_frame_loop wr
            (b\<lparr>buffer := AList.delete (next_frame_number b) (buffer b),
               writer := wr (writer b) frame_to_write,
               next_frame_number := next_frame_number b + 1\<rparr>)
            (written + 1))"
  by pat_completeness auto
termination
proof (relation "measure (\<lambda>(wr, b, written). length (buffer b))")
  show "wf (measure (\<lambda>(wr, b, written). length (buffer b)))" by simp
next
  fix wr :: "'w \<Rightarrow> frame \<Rightarrow> 'w" and b :: "'w frame_buffer" and written :: nat and x2
  assume "map_of (buffer b) (next_frame_number b) = Some x2"
  then have "(next_frame_number b, x2) \<in> set (buffer b)"
    by (rule map_of_SomeD)
  then have "length (AList.delete (next_frame_number b) (buffer b)) < length (buffer b)"
    unfolding AList.delete_eq
    by (intro length_filter_less [where x = "(next_frame_number b, x2)"]) simp_all
  then show "((wr, b\<lparr>buffer := AList.delete (next_frame_number b) (buffer b),
                    writer := wr (writer b) x2,
                    next_frame_number := next_frame_number b + 1\<rparr>, written + 1),
              (wr, b, written)) \<in> measure (\<lambda>(wr, b, written). length (buffer b))"
    by simp
qed

declare add_frame_loop.simps [simp del]

definition add_frame ::
  "('w \<Rightarrow> frame \<Rightarrow> 'w) \<Rightarrow> 'w frame_buffer \<Rightarrow> int \<Rightarrow> frame \<Rightarrow> 'w frame_buffer \<times> nat" where
  "add_frame wr b frame_number frame =
     add_frame_loop wr (b\<lparr>buffer := AList.update frame_number frame (buffer b)\<rparr>) 0"

text \<open>
  The loop of \<open>flush_remaining\<close>. Reading \<open>self.writer.frame_size[1]\<close> raises
  \<open>TypeError\<close> when \<open>frame_size\<close> is \<open>None\<close>.
\<close>

function flush_loop ::
  "('w \<Rightarrow> frame \<Rightarrow> 'w) \<Rightarrow> ('w \<Rightarrow> (nat \<times> nat) option) \<Rightarrow> 'w frame_buffer \<Rightarrow> int \<Rightarrow> nat
     \<Rightarrow> error + ('w frame_buffer \<times> nat)" where
  "flush_loop wr fsz b total_frames written =
     (if next_frame_number b < total_frames then
        (case (case map_of (buffer b) (next_frame_number b) of
                 Some buffered \<Rightarrow>
                   Inr (b\<lparr>buffer := AList.delete (next_frame_number b) (buffer b)\<rparr>, buffered)
               | None \<Rightarrow>
                  (case fsz (writer b) of
                     None \<Rightarrow> Inl TypeError
                   | Some s \<Rightarrow> Inr (b, np_zeros (snd s) (fst s)))) of
           Inl e \<Rightarrow> Inl e
         | Inr (b1, frame) \<Rightarrow>
             flush_loop wr fsz
               (b1\<lparr>writer := wr (writer b1) frame,
                   next_frame_number := next_frame_number b1 + 1\<rparr>)
               total_frames (written + 1))
      else Inr (b, written))"
  by pat_completeness auto
termination
  by (relation "measure (\<lambda>(wr, fsz, b, total_frames, written).
        nat (total_frames - next_frame_number b))")
     (auto split: option.splits)

declare flush_loop.simps [simp del]

definition flush_remaining ::
  "('w \<Rightarrow> frame \<Rightarrow> 'w) \<Rightarrow> ('w \<Rightarrow> (nat \<times> nat) option) \<Rightarrow> 'w frame_buffer \<Rightarrow> int
     \<Rightarrow> error + ('w frame_buffer \<times> nat)" where
  "flush_remaining wr fsz b total_frames = flush_loop wr fsz b total_frames 0"

text \<open>A sequence of \<open>add_frame\<close> calls, each given as (index, frame).\<close>

definition add_frames ::
  "('w \<Rightarrow> frame \<Rightarrow> 'w) \<Rightarrow> 'w frame_buffer \<Rightarrow> (int \<times> frame) list \<Rightarrow> 'w frame_buffer" where
  "add_frames wr b calls = foldl (\<lambda>b (i, f). fst (add_frame wr b i f)) b calls"

text \<open>
  The state a \<open>VideoWriter\<close> is left in by \<open>self.writer.write(frame)\<close> as the buffer
  calls it: the returned flag is discarded.
\<close>

definition writer_write :: "cv_env \<Rightarrow> video_writer \<Rightarrow> frame \<Rightarrow> video_writer" where
  "writer_write env w frame = (case vw_write env w frame of Inl e \<Rightarrow> w | Inr (w', ok) \<Rightarrow> w')"


subsection \<open>Invariants of the frame buffer\<close>

text \<open>
  \<open>buf_inv wr w0 A b ws\<close>: the buffer \<open>b\<close> has handed its writer the frames \<open>ws\<close>, one
  per index below the cursor, every buffered entry was supplied by a call in \<open>A\<close>, and
  every supplied index at or above the cursor is still buffered.
\<close>

definition buf_inv ::
  "('w \<Rightarrow> frame \<Rightarrow> 'w) \<Rightarrow> 'w \<Rightarrow> (int \<times> frame) set \<Rightarrow> 'w frame_buffer \<Rightarrow> frame list \<Rightarrow> bool" where
  "buf_inv wr w0 A b ws \<longleftrightarrow>
     next_frame_number b = int (length ws) \<and>
     writer b = foldl wr w0 ws \<and>
     (\<forall>k f. map_of (buffer b) k = Some f \<longrightarrow> (k, f) \<in> A) \<and>
     (\<forall>p \<in> A. next_frame_number b \<le> fst p \<longrightarrow> map_of (buffer b) (fst p) \<noteq> None)"

text \<open>Every written frame was supplied for its index.\<close>

definition supplied_ok :: "(int \<times> frame) set \<Rightarrow> frame list \<Rightarrow> bool" where
  "supplied_ok A ws \<longleftrightarrow> (\<forall>i < length ws. (int i, ws ! i) \<in> A)"

text \<open>Every written frame was supplied for its index, or is \<open>z\<close> where none was.\<close>

definition filled_ok :: "(int \<times> frame) set \<Rightarrow> frame \<Rightarrow> frame list \<Rightarrow> bool" where
  "filled_ok A z ws \<longleftrightarrow>
     (\<forall>i < length ws. if int i \<in> fst ` A then (int i, ws ! i) \<in> A else ws ! i = z)"

subsection \<open>Example inputs\<close>

text \<open>
  An OpenCV whose encoder opens and accepts every frame, and three small frames.
\<close>

definition env_ok :: cv_env where
  "env_ok =
     \<lparr>cv_isOpened = True, cv_write_raises = (\<lambda>f. False),
      cv_interpolate = (\<lambda>src dsize. replicate (snd dsize * fst dsize * 3) 0)\<rparr>"

definition frame_a :: frame where
  "frame_a = \<lparr>fheight = 1, fwidth = 2, fdata = [1, 2, 3, 4, 5, 6]\<rparr>"

definition frame_b :: frame where
  "frame_b = \<lparr>fheight = 1, fwidth = 2, fdata = [9, 9, 9, 9, 9, 9]\<rparr>"

definition frame_small :: frame where
  "frame_small = \<lparr>fheight = 1, fwidth = 1, fdata = [7, 7, 7]\<rparr>"

text \<open>A writer configured for 2x1 frames, after a successful \<open>open()\<close>.\<close>

definition open_writer :: video_writer where
  "open_writer =
     (case vw_open env_ok (video_writer_init (Some (2, 1))) None of
        Inr (w, ok) \<Rightarrow> w | Inl e \<Rightarrow> video_writer_init None)"

section \<open>Protocol codec (FINAL/src/protocol/messages.py)\<close>

text \<open>
  The Python values that JSON represents. A message is a dictionary, that is a
  \<open>JObject\<close>; Python's \<open>None\<close> is \<open>JNull\<close>; floats are taken as reals.
\<close>

datatype json =
    JNull
  | JBool bool
  | JInt int
  | JFloat real
  | JString string
  | JArray "json list"
  | JObject "(string \<times> json) list"

text \<open>
  \<open>struct.pack('!I', n)\<close>: four bytes, most significant first; \<open>struct.error\<close> when
  \<open>n\<close> does not fit 32 bits. \<open>struct.unpack('!I', bs)\<close>: \<open>struct.error\<close> unless \<open>bs\<close>
  has exactly four bytes.
\<close>

definition struct_pack_I :: "nat \<Rightarrow> error + byte list" where
  "struct_pack_I n =
     (if n < 2 ^ 32 then
        Inr [of_nat (n div 2 ^ 24), of_nat (n div 2 ^ 16), of_nat (n div 2 ^ 8), of_nat n]
      else Inl StructError)"

fun struct_unpack_I :: "byte list \<Rightarrow> error + nat" where
  "struct_unpack_I [b3, b2, b1, b0] =
     Inr (unat b3 * 2 ^ 24 + unat b2 * 2 ^ 16 + unat b1 * 2 ^ 8 + unat b0)"
| "struct_unpack_I bs = Inl StructError"

text \<open>
  The sending side of a socket: the bytes it has accepted, and whether the connection
  is broken, in which case \<open>sendall\<close> raises \<open>OSError\<close>.
\<close>

record out_socket =
  sent :: "byte list"
  broken :: bool

definition sendall :: "out_socket \<Rightarrow> byte list \<Rightarrow> error + out_socket" where
  "sendall sock bs = (if broken sock then Inl OSError else Inr (sock\<lparr>sent := sent sock @ bs\<rparr>))"

text \<open>
  The receiving side of a socket: what is still to arrive, in the pieces the transport
  delivers. An empty list is a connection the peer has closed; \<open>Reset\<close> is a failure of
  the connection, on which \<open>recv\<close> raises \<open>OSError\<close>. \<open>recv(k)\<close> returns at most \<open>k\<close>
  bytes of the next piece, and no byte when the peer has closed.
\<close>

datatype sock_event = Data "byte list" | Reset

type_synonym in_socket = "sock_event list"

fun sock_recv :: "in_socket \<Rightarrow> nat \<Rightarrow> error + (byte list \<times> in_socket)" where
  "sock_recv [] k = Inr ([], [])"
| "sock_recv (Reset # rest) k = Inl OSError"
| "sock_recv (Data seg # rest) k =
     Inr (take k seg, if k < length seg then Data (drop k seg) # rest else rest)"

text \<open>
  The JSON library is outside the repository and is a parameter of the codec:
  \<open>dumps m\<close> stands for \<open>json.dumps(m).encode('utf-8')\<close>, which raises \<open>TypeError\<close> on a
  value it cannot serialise, and \<open>loads bs\<close> for \<open>json.loads(bs.decode('utf-8'))\<close>, which
  raises \<open>UnicodeDecodeError\<close> or \<open>JSONDecodeError\<close>.
\<close>

type_synonym json_dumps = "json \<Rightarrow> error + byte list"
type_synonym json_loads = "byte list \<Rightarrow> error + json"

text \<open>
  \<open>send_message\<close>: its \<open>except (socket.error, OSError)\<close> turns a failure of the socket
  into \<open>ProtocolError\<close>; any other exception propagates.
\<close>

definition send_message :: "json_dumps \<Rightarrow> out_socket \<Rightarrow> json \<Rightarrow> error + out_socket" where
  "send_message dumps sock message =
     (case (case dumps message of
              Inl e \<Rightarrow> Inl e
            | Inr payload \<Rightarrow>
               (case struct_pack_I (length payload) of
                  Inl e \<Rightarrow> Inl e
                | Inr len \<Rightarrow> sendall sock (len @ payload))) of
        Inl OSError \<Rightarrow> Inl ProtocolError
      | Inl e \<Rightarrow> Inl e
      | Inr sock' \<Rightarrow> Inr sock')"

definition chunk_size :: nat where
  "chunk_size = 256 * 1024"

text \<open>The loop of \<open>_recv_exact\<close>, with the bytes collected so far.\<close>

function recv_exact_loop ::
  "in_socket \<Rightarrow> nat \<Rightarrow> byte list \<Rightarrow> error + (byte list \<times> in_socket)" where
  "recv_exact_loop sock n data =
     (if length data < n then
        (case sock_recv sock (min chunk_size (n - length data)) of
           Inl e \<Rightarrow> Inl e
         | Inr (chunk, sock') \<Rightarrow>
            if chunk = [] then Inr (data, sock')
            else recv_exact_loop sock' n (data @ chunk))
      else Inr (data, sock))"
  by pat_completeness auto
termination
proof (relation "measure (\<lambda>(sock, n, data). n - length data)")
  show "wf (measure (\<lambda>(sock, n, data). n - length data))" by simp
next
  fix sock :: in_socket and n :: nat and data chunk :: "byte list" and x2 sock'
  assume "length data < n" and "chunk \<noteq> []"
  then have "n - (length data + length chunk) < n - length data"
    by (cases chunk) simp_all
  then show "((sock', n, data @ chunk), (sock, n, data))
               \<in> measure (\<lambda>(sock, n, data). n - length data)"
    by simp
qed

declare recv_exact_loop.simps [simp del]

definition recv_exact :: "in_socket \<Rightarrow> nat \<Rightarrow> error + (byte list \<times> in_socket)" where
  "recv_exact sock n = recv_exact_loop sock n []"

text \<open>
  \<open>recv_message\<close>. The \<open>try\<close> block has two handlers: \<open>json.JSONDecodeError\<close> and
  \<open>(socket.error, OSError)\<close> become \<open>ProtocolError\<close>; every other exception leaves the
  function as it is. The result is the received value and the socket after the read;
  \<open>None\<close> is \<open>JNull\<close>.
\<close>

definition max_message_length :: nat where
  "max_message_length = 100 * 1024 * 1024"

definition recv_message :: "json_loads \<Rightarrow> in_socket \<Rightarrow> error + (json \<times> in_socket)" where
  "recv_message loads sock =
     (case (case recv_exact sock 4 of
              Inl e \<Rightarrow> Inl e
            | Inr (length_bytes, sock1) \<Rightarrow>
               if length_bytes = [] then Inr (JNull, sock1)
               else
                 (case struct_unpack_I length_bytes of
                    Inl e \<Rightarrow> Inl e
                  | Inr len \<Rightarrow>
                     if len > max_message_length then Inl ProtocolError
                     else
                       (case recv_exact sock1 len of
                          Inl e \<Rightarrow> Inl e
                        | Inr (payload, sock2) \<Rightarrow>
                           if length payload \<noteq> len then Inl ProtocolError
                           else
                             (case loads payload of
                                Inl e \<Rightarrow> Inl e
                              | Inr v \<Rightarrow> Inr (v, sock2))))) of
        Inl JSONDecodeError \<Rightarrow> Inl ProtocolError
      | Inl OSError \<Rightarrow> Inl ProtocolError
      | Inl e \<Rightarrow> Inl e
      | Inr r \<Rightarrow> Inr r)"

text \<open>
  What arrives at the peer when the bytes \<open>bs\<close> are sent and the sender then closes: any
  cutting of \<open>bs\<close> into pieces, none of them empty.
\<close>

definition delivers :: "byte list \<Rightarrow> in_socket \<Rightarrow> bool" where
  "delivers bs sock \<longleftrightarrow>
     (\<exists>segs. sock = map Data segs \<and> concat segs = bs \<and> [] \<notin> set segs)"


section \<open>A JSON library for one-field messages\<close>

text \<open>
  An instance of the two library parameters of the codec, for evaluating it: the messages
  \<open>{"key": "value"}\<close> with one string field whose key and value consist of printable ASCII
  characters other than the quote and the backslash. On these \<open>json.dumps\<close> writes
  \<open>{"key": "value"}\<close>, with a colon and a space between the two strings, and UTF-8 uses
  one byte for each character. Every other value is outside this instance and is refused.
\<close>

definition byte_of_char :: "char \<Rightarrow> byte" where
  "byte_of_char c = of_nat (of_char c)"

definition char_of_byte :: "byte \<Rightarrow> char" where
  "char_of_byte b = char_of (unat b)"

definition plain_byte :: "byte \<Rightarrow> bool" where
  "plain_byte b \<longleftrightarrow> 32 \<le> unat b \<and> unat b < 127 \<and> b \<noteq> 34 \<and> b \<noteq> 92"

definition plain_char :: "char \<Rightarrow> bool" where
  "plain_char c \<longleftrightarrow> plain_byte (byte_of_char c)"

definition field_bytes :: "byte list \<Rightarrow> byte list \<Rightarrow> byte list" where
  "field_bytes key val = [123, 34] @ key @ [34, 58, 32, 34] @ val @ [34, 125]"

fun dumps_plain :: json_dumps where
  "dumps_plain (JObject [(k, JString s)]) =
     (if list_all plain_char k \<and> list_all plain_char s
      then Inr (field_bytes (map byte_of_char k) (map byte_of_char s))
      else Inl TypeError)"
| "dumps_plain v = Inl TypeError"

definition loads_plain :: json_loads where
  "loads_plain bs =
     (let key = takeWhile (\<lambda>b. b \<noteq> 34) (drop 2 bs);
          val = takeWhile (\<lambda>b. b \<noteq> 34) (drop (6 + length key) bs)
      in if bs = field_bytes key val \<and> list_all plain_byte key \<and> list_all plain_byte val
         then Inr (JObject [(map char_of_byte key, JString (map char_of_byte val))])
         else Inl JSONDecodeError)"

text \<open>
  Example inputs: a socket on which nothing was sent yet, a message whose one field holds
  100 MiB of the letter \<open>a\<close>, and a short message.
\<close>

definition fresh_socket :: out_socket where
  "fresh_socket = \<lparr>sent = [], broken = False\<rparr>"

definition big_message :: json where
  "big_message = JObject [(''data'', JString (replicate 104857600 CHR ''a''))]"

definition big_payload :: "byte list" where
  "big_payload = field_bytes (map byte_of_char ''data'')
                   (map byte_of_char (replicate 104857600 CHR ''a''))"

definition eof_message :: json where
  "eof_message = JObject [(''type'', JString ''eof'')]"

definition eof_payload :: "byte list" where
  "eof_payload = field_bytes (map byte_of_char ''type'') (map byte_of_char ''eof'')"


section \<open>Orchestrator (FINAL/src/server.py)\<close>

text \<open>
  Python truthiness of a JSON value, and \<open>m.get(key)\<close>, which is an \<open>AttributeError\<close> on a
  value that is not a dictionary. The field list of a \<open>JObject\<close> holds each key once.
\<close>

fun truthy :: "json \<Rightarrow> bool" where
  "truthy JNull = False"
| "truthy (JBool b) = b"
| "truthy (JInt i) = (i \<noteq> 0)"
| "truthy (JFloat r) = (r \<noteq> 0)"
| "truthy (JString s) = (s \<noteq> [])"
| "truthy (JArray xs) = (xs \<noteq> [])"
| "truthy (JObject kvs) = (kvs \<noteq> [])"

fun dict_get :: "json \<Rightarrow> string \<Rightarrow> error + json option" where
  "dict_get (JObject kvs) key = Inr (map_of kvs key)"
| "dict_get v key = Inl AttributeError"

text \<open>\<open>m.get(key, default)\<close>.\<close>

definition dict_get_or :: "json \<Rightarrow> string \<Rightarrow> json \<Rightarrow> error + json" where
  "dict_get_or m key dflt =
     (case dict_get m key of
        Inl e \<Rightarrow> Inl e
      | Inr None \<Rightarrow> Inr dflt
      | Inr (Some v) \<Rightarrow> Inr v)"

subsection \<open>Messages (FINAL/src/protocol/messages.py)\<close>

definition make_handshake_ack :: "bool \<Rightarrow> string \<Rightarrow> json \<Rightarrow> json" where
  "make_handshake_ack accepted sid preview_url =
     JObject [(''type'', JString ''handshake_ack''), (''accepted'', JBool accepted),
              (''session_id'', JString sid), (''preview_url'', preview_url)]"

definition make_progress :: "json \<Rightarrow> json \<Rightarrow> json \<Rightarrow> json \<Rightarrow> json" where
  "make_progress frames_done frames_all fps eta_seconds =
     JObject [(''type'', JString ''progress''), (''frames_processed'', frames_done),
              (''frames_total'', frames_all), (''fps'', fps), (''eta_seconds'', eta_seconds)]"

definition make_result :: "bool \<Rightarrow> string \<Rightarrow> nat \<Rightarrow> json \<Rightarrow> json" where
  "make_result ok output_path size_bytes summary =
     JObject [(''type'', JString ''result''), (''ok'', JBool ok),
              (''output_path'', JString output_path), (''size_bytes'', JInt (int size_bytes)),
              (''metrics'', summary)]"

definition make_error :: "string \<Rightarrow> string \<Rightarrow> bool \<Rightarrow> json" where
  "make_error code message recoverable =
     JObject [(''type'', JString ''error''), (''code'', JString code),
              (''message'', JString message), (''recoverable'', JBool recoverable)]"

subsection \<open>The connection to the client\<close>

text \<open>
  What the handler has written to its \<open>StreamWriter\<close>: messages, each sent by
  \<open>_send_message\<close> as a length prefix and a JSON payload, and raw bytes. The peer accepts
  \<open>patience\<close> writes and is gone afterwards (\<open>None\<close>: it stays); \<open>drain\<close> on a connection
  whose peer is gone raises \<open>ConnectionResetError\<close>, an \<open>OSError\<close>.
\<close>

datatype out_item = Msg json | Raw "byte list"

record connection =
  outbox :: "out_item list"
  wclosed :: bool

definition writable :: "nat option \<Rightarrow> connection \<Rightarrow> bool" where
  "writable patience c = (case patience of None \<Rightarrow> True | Some n \<Rightarrow> length (outbox c) < n)"

definition conn_write :: "nat option \<Rightarrow> connection \<Rightarrow> out_item \<Rightarrow> error option \<times> connection" where
  "conn_write patience c item =
     (if writable patience c then (None, c\<lparr>outbox := outbox c @ [item]\<rparr>)
      else (Some OSError, c))"

subsection \<open>The state store\<close>

text \<open>
  The Redis database as the handler uses it: \<open>set\<close> stores a value and clears the expiry
  of the key, \<open>expire\<close> puts an expiry on a key that exists. A value is recorded as it is
  handed to \<open>set\<close>: \<open>RFixed d x\<close> is \<open>x\<close> formatted with \<open>d\<close> decimals, \<open>RSize w h\<close> is
  \<open>f"{w}x{h}"\<close>, \<open>RClock t\<close> is \<open>str(t)\<close> of a clock reading. The server answers \<open>budget\<close>
  commands and fails afterwards (\<open>None\<close>: it never fails); a failed command raises.
\<close>

datatype rval = RInt int | RStr string | RJson json | RFixed nat real | RSize nat nat | RClock real

record redis =
  kv :: "string \<rightharpoonup> rval"
  expiry :: "string \<rightharpoonup> nat"
  issued :: nat

datatype redis_cmd = Set string rval | Expire string nat

definition redis_up :: "nat option \<Rightarrow> redis \<Rightarrow> bool" where
  "redis_up budget r = (case budget of None \<Rightarrow> True | Some n \<Rightarrow> issued r < n)"

fun redis_apply :: "redis_cmd \<Rightarrow> redis \<Rightarrow> redis" where
  "redis_apply (Set key v) r =
     r\<lparr>kv := (kv r)(key \<mapsto> v), expiry := (expiry r)(key := None), issued := issued r + 1\<rparr>"
| "redis_apply (Expire key secs) r =
     (if key \<in> dom (kv r) then r\<lparr>expiry := (expiry r)(key \<mapsto> secs), issued := issued r + 1\<rparr>
      else r\<lparr>issued := issued r + 1\<rparr>)"

text \<open>
  A \<open>try\<close> block of Redis commands whose \<open>except Exception\<close> only prints or passes: the
  commands run in order and the first that fails ends the block.
\<close>

fun redis_try :: "nat option \<Rightarrow> redis_cmd list \<Rightarrow> redis \<Rightarrow> redis" where
  "redis_try budget [] r = r"
| "redis_try budget (cmd # cmds) r =
     (if redis_up budget r then redis_try budget cmds (redis_apply cmd r) else r)"

definition session_key :: "string \<Rightarrow> string \<Rightarrow> string" where
  "session_key sid name = ''session:'' @ sid @ '':'' @ name"

subsection \<open>Processing the results\<close>

record video_props =
  vp_fps :: real
  vp_total_frames :: int
  vp_width :: nat
  vp_height :: nat

text \<open>
  The stats dictionary of a frame, read from its JSON file: each key the loop looks at,
  \<open>None\<close> when the key is absent.
\<close>

record frame_stats =
  st_error :: "string option"
  st_processing_time_ms :: "real option"
  st_hostname :: "string option"
  st_filter_applied :: "string option"
  st_memory_mb :: "real option"

definition no_stats :: frame_stats where
  "no_stats = \<lparr>st_error = None, st_processing_time_ms = None, st_hostname = None,
               st_filter_applied = None, st_memory_mb = None\<rparr>"

text \<open>
  An entry of \<open>all_results\<close>: the exception that \<open>gather\<close> returned for the frame, or the
  dictionary with the path of the frame and its stats.
\<close>

datatype frame_result = Raised error | Found string frame_stats

text \<open>
  Everything outside the repository that a session depends on, given by its outcome:
  the client, Redis, the clock, the file system, OpenCV and the workers.
\<close>

record world =
  patience :: "nat option"
  redis_client :: bool
  budget :: "nat option"
  describe :: "error \<Rightarrow> string"
  receive_video :: "error + string"
  dispatch_tasks :: "error + (int list \<times> (int \<rightharpoonup> frame) \<times> video_props)"
  get_celery_results :: "error + frame_result list"
  cv :: cv_env
  path_exists :: "string \<Rightarrow> bool"
  imread :: "string \<Rightarrow> frame option"
  get_summary :: "metrics \<Rightarrow> json"
  read_video_file :: "string \<Rightarrow> error + byte list"
  clock :: "nat \<Rightarrow> real"

text \<open>The frame the loop of \<open>_process_results_sync\<close> takes for one result.\<close>

definition chosen_frame ::
  "world \<Rightarrow> (int \<rightharpoonup> frame) \<Rightarrow> int \<Rightarrow> frame_result \<Rightarrow> frame option \<times> frame_stats \<times> bool" where
  "chosen_frame w original_frames frame_num result =
     (case result of
        Raised e \<Rightarrow> (original_frames frame_num, no_stats, True)
      | Found frame_path stats \<Rightarrow>
          if st_error stats \<noteq> None then (original_frames frame_num, stats, True)
          else if frame_path \<noteq> [] \<and> path_exists w frame_path then
            (case imread w frame_path of
               None \<Rightarrow> (original_frames frame_num, stats, True)
             | Some processed \<Rightarrow> (Some processed, stats, False))
          else (original_frames frame_num, stats, True))"

record sync_state =
  sy_buffer :: "video_writer frame_buffer"
  sy_metrics :: metrics
  sy_printed :: "int list"

text \<open>
  One turn of the loop over \<open>enumerate(all_results)\<close>. Every 30th frame number the loop
  prints a line to the standard output, recorded in \<open>sy_printed\<close>.
\<close>

definition result_step ::
  "world \<Rightarrow> int list \<Rightarrow> (int \<rightharpoonup> frame) \<Rightarrow> video_props \<Rightarrow> nat \<Rightarrow> frame_result \<Rightarrow> sync_state
     \<Rightarrow> error + sync_state" where
  "result_step w tasks original_frames props i result s =
     (case py_index tasks (int i) of
        Inl e \<Rightarrow> Inl e
      | Inr frame_num \<Rightarrow>
         (let (found, stats, fallback) = chosen_frame w original_frames frame_num result;
              (processed_frame, is_fallback) =
                 (case found of
                    None \<Rightarrow> (np_zeros (vp_height props) (vp_width props), True)
                  | Some f \<Rightarrow> (f, fallback));
              b = fst (add_frame (writer_write (cv w)) (sy_buffer s) frame_num processed_frame);
              m = record_frame (sy_metrics s) frame_num
                    (case st_processing_time_ms stats of None \<Rightarrow> 0 | Some t \<Rightarrow> t)
                    (st_hostname stats)
                    (if is_fallback then Some ''fallback'' else st_filter_applied stats)
                    (case st_memory_mb stats of None \<Rightarrow> 0 | Some t \<Rightarrow> t)
                    is_fallback
          in Inr \<lparr>sy_buffer = b, sy_metrics = m,
                  sy_printed = (if (frame_num + 1) mod 30 = 0
                                then sy_printed s @ [frame_num + 1] else sy_printed s)\<rparr>))"

fun results_loop ::
  "world \<Rightarrow> int list \<Rightarrow> (int \<rightharpoonup> frame) \<Rightarrow> video_props \<Rightarrow> nat \<Rightarrow> frame_result list
     \<Rightarrow> sync_state \<Rightarrow> error + sync_state" where
  "results_loop w tasks original_frames props i [] s = Inr s"
| "results_loop w tasks original_frames props i (result # rest) s =
     (case result_step w tasks original_frames props i result s of
        Inl e \<Rightarrow> Inl e
      | Inr s' \<Rightarrow> results_loop w tasks original_frames props (i + 1) rest s')"

record outcome =
  res_ok :: bool
  res_output_path :: string
  res_metrics :: json

text \<open>
  \<open>_process_results_sync\<close>: the loop, \<open>flush_remaining\<close>, and the summary of the metrics.
  It has the processor's metrics and a writer of its own; it has no access to the
  connection or to Redis and takes no callback. The final \<open>writer.close()\<close> releases the
  encoder, and nothing reads the writer afterwards.
\<close>

definition process_results_sync ::
  "world \<Rightarrow> metrics \<Rightarrow> frame_result list \<Rightarrow> int list \<Rightarrow> (int \<rightharpoonup> frame) \<Rightarrow> video_props
     \<Rightarrow> string \<Rightarrow> json \<Rightarrow> error + outcome" where
  "process_results_sync w m all_results tasks original_frames props output_path codec =
     (let vwriter = video_writer_init (Some (vp_width props, vp_height props));
          s0 = \<lparr>sy_buffer = frame_buffer_init vwriter, sy_metrics = m, sy_printed = []\<rparr>
      in case results_loop w tasks original_frames props 0 all_results s0 of
           Inl e \<Rightarrow> Inl e
         | Inr s \<Rightarrow>
            (case flush_remaining (writer_write (cv w)) frame_size (sy_buffer s)
                    (vp_total_frames props) of
               Inl e \<Rightarrow> Inl e
             | Inr flushed \<Rightarrow>
                Inr \<lparr>res_ok = True, res_output_path = output_path,
                     res_metrics = get_summary w (sy_metrics s)\<rparr>))"

text \<open>
  \<open>process_results\<close> runs \<open>_process_results_sync\<close> in an executor. Its last parameter,
  \<open>progress_callback\<close>, occurs nowhere in its body.
\<close>

definition process_results ::
  "world \<Rightarrow> metrics \<Rightarrow> frame_result list \<Rightarrow> int list \<Rightarrow> (int \<rightharpoonup> frame) \<Rightarrow> video_props
     \<Rightarrow> string \<Rightarrow> json \<Rightarrow> 'callback \<Rightarrow> error + outcome" where
  "process_results w m all_results tasks original_frames props output_path codec
     progress_callback =
     process_results_sync w m all_results tasks original_frames props output_path codec"

subsection \<open>The client handler\<close>

record handler =
  session_id :: string
  conn :: connection
  store :: redis

definition send_message_to :: "world \<Rightarrow> handler \<Rightarrow> json \<Rightarrow> error option \<times> handler" where
  "send_message_to w h message =
     (case conn_write (patience w) (conn h) (Msg message) of
        (r, c) \<Rightarrow> (r, h\<lparr>conn := c\<rparr>))"

definition send_error :: "world \<Rightarrow> handler \<Rightarrow> string \<Rightarrow> string \<Rightarrow> error option \<times> handler" where
  "send_error w h code message = send_message_to w h (make_error code message False)"

text \<open>
  The \<open>progress_callback\<close> that \<open>handle\<close> defines: it sends a \<open>progress\<close> message and
  stores three keys of the session.
\<close>

record progress =
  pr_frames_processed :: nat
  pr_frames_total :: int
  pr_fps :: real
  pr_eta_seconds :: real

definition progress_callback :: "world \<Rightarrow> handler \<Rightarrow> progress \<Rightarrow> error option \<times> handler" where
  "progress_callback w h p =
     (case send_message_to w h
             (make_progress (JInt (int (pr_frames_processed p))) (JInt (pr_frames_total p))
                (JFloat (pr_fps p)) (JFloat (pr_eta_seconds p))) of
        (Some e, h1) \<Rightarrow> (Some e, h1)
      | (None, h1) \<Rightarrow>
          if redis_client w then
            (None, h1\<lparr>store := redis_try (budget w)
               [Set (session_key (session_id h1) ''processed_frames'')
                    (RInt (int (pr_frames_processed p))),
                Set (session_key (session_id h1) ''current_fps'') (RFixed 2 (pr_fps p)),
                Set (session_key (session_id h1) ''eta_seconds'') (RFixed 1 (pr_eta_seconds p)),
                Expire (session_key (session_id h1) ''processed_frames'') 3600,
                Expire (session_key (session_id h1) ''current_fps'') 3600,
                Expire (session_key (session_id h1) ''eta_seconds'') 3600]
               (store h1)\<rparr>)
          else (None, h1))"

text \<open>
  The Redis commands of the metadata block. \<open>video_info.get\<close> raises when \<open>video_info\<close> is
  not a dictionary, which ends the block after the fifth \<open>set\<close>.
\<close>

definition metadata_cmds :: "world \<Rightarrow> string \<Rightarrow> json \<Rightarrow> video_props \<Rightarrow> redis_cmd list" where
  "metadata_cmds w sid handshake props =
     (case dict_get_or handshake ''video_info'' (JObject []) of
        Inl e \<Rightarrow> []
      | Inr video_info \<Rightarrow>
          [Set (session_key sid ''total_frames'') (RInt (vp_total_frames props)),
           Set (session_key sid ''fps'') (RFixed 2 (vp_fps props)),
           Set (session_key sid ''resolution'') (RSize (vp_width props) (vp_height props)),
           Set (session_key sid ''status'') (RStr ''processing'')] @
          (case dict_get_or handshake ''processing'' (JString ''none'') of
             Inl e \<Rightarrow> []
           | Inr processing \<Rightarrow>
               Set (session_key sid ''processing_type'') (RJson processing) #
               (case dict_get_or video_info ''filename'' (JString ''unknown'') of
                  Inl e \<Rightarrow> []
                | Inr filename \<Rightarrow>
                    [Set (session_key sid ''video_name'') (RJson filename),
                     Set (session_key sid ''start_time'') (RClock (clock w 1))] @
                    map (\<lambda>name. Expire (session_key sid name) 3600)
                      [''total_frames'', ''fps'', ''resolution'', ''status'',
                       ''processing_type'', ''video_name'', ''start_time''])))"

definition completed_cmds :: "world \<Rightarrow> string \<Rightarrow> redis_cmd list" where
  "completed_cmds w sid =
     [Set (session_key sid ''status'') (RStr ''completed''),
      Set (session_key sid ''end_time'') (RClock (clock w 2)),
      Expire (session_key sid ''end_time'') 3600]"

text \<open>
  The test on the first message: \<open>not handshake or handshake.get("type") != "handshake"\<close>.
\<close>

definition not_a_handshake :: "json \<Rightarrow> error + bool" where
  "not_a_handshake handshake =
     (if \<not> truthy handshake then Inr True
      else (case dict_get handshake ''type'' of
              Inl e \<Rightarrow> Inl e
            | Inr t \<Rightarrow> Inr (t \<noteq> Some (JString ''handshake''))))"

text \<open>
  The steps of the \<open>try\<close> block of \<open>handle\<close> after the handshake was acknowledged. The
  result is the exception that ended the block, if any, and the state it was left in. A
  session identifier is eight hexadecimal digits, so that \<open>os.path.basename(output_path)\<close>
  is \<open>output_path\<close> itself.
\<close>

definition serve :: "world \<Rightarrow> json \<Rightarrow> handler \<Rightarrow> error option \<times> handler" where
  "serve w handshake h =
     (case receive_video w of
        Inl e \<Rightarrow> (Some e, h)
      | Inr video_path \<Rightarrow>
     (case dict_get_or handshake ''processing'' (JString ''blur'') of
        Inl e \<Rightarrow> (Some e, h)
      | Inr processing \<Rightarrow>
     (case dispatch_tasks w of
        Inl e \<Rightarrow> (Some e, h)
      | Inr (tasks, original_frames, props) \<Rightarrow>
     (let output_path = ''output_'' @ session_id h @ ''.mp4'';
          m = set_total_frames (metrics_init (clock w 0)) (vp_total_frames props);
          h1 = (if redis_client w
                then h\<lparr>store := redis_try (budget w)
                                   (metadata_cmds w (session_id h) handshake props) (store h)\<rparr>
                else h)
      in case get_celery_results w of
           Inl e \<Rightarrow> (Some e, h1)
         | Inr all_results \<Rightarrow>
        (case dict_get_or handshake ''codec'' (JString ''mp4v'') of
           Inl e \<Rightarrow> (Some e, h1)
         | Inr codec \<Rightarrow>
        (case process_results w m all_results tasks original_frames props output_path codec
                (progress_callback w) of
           Inl e \<Rightarrow> (Some e, h1)
         | Inr result \<Rightarrow>
        (let h2 = (if redis_client w \<and> res_ok result
                   then h1\<lparr>store := redis_try (budget w)
                                       (completed_cmds w (session_id h1)) (store h1)\<rparr>
                   else h1)
         in case read_video_file w output_path of
              Inl e \<Rightarrow> (Some e, h2)
            | Inr video_data \<Rightarrow>
           (case send_message_to w h2
                   (make_result (res_ok result) output_path (length video_data)
                      (res_metrics result)) of
              (Some e, h3) \<Rightarrow> (Some e, h3)
            | (None, h3) \<Rightarrow>
               (case conn_write (patience w) (conn h3) (Raw video_data) of
                  (r, c) \<Rightarrow> (r, h3\<lparr>conn := c\<rparr>))))))))))"

text \<open>The \<open>try\<close> block of \<open>handle\<close>; its \<open>return\<close> ends the block without an exception.\<close>

definition handle_try :: "world \<Rightarrow> json \<Rightarrow> handler \<Rightarrow> error option \<times> handler" where
  "handle_try w handshake h =
     (case not_a_handshake handshake of
        Inl e \<Rightarrow> (Some e, h)
      | Inr True \<Rightarrow> send_error w h ''INVALID_HANDSHAKE'' ''Se esperaba handshake''
      | Inr False \<Rightarrow>
          (case send_message_to w h (make_handshake_ack True (session_id h) JNull) of
             (Some e, h1) \<Rightarrow> (Some e, h1)
           | (None, h1) \<Rightarrow> serve w handshake h1))"

text \<open>
  \<open>handle\<close>, given the first message that \<open>_recv_message\<close> returned (\<open>JNull\<close> for \<open>None\<close>):
  the \<open>try\<close> block, the \<open>except Exception\<close> clause that sends the error, and the \<open>finally\<close>
  clause that closes the writer. The result is the exception that leaves \<open>handle\<close>, if
  any, and the final state.
\<close>

definition handle :: "world \<Rightarrow> json \<Rightarrow> handler \<Rightarrow> error option \<times> handler" where
  "handle w handshake h =
     (case (case handle_try w handshake h of
              (None, h1) \<Rightarrow> (None, h1)
            | (Some e, h1) \<Rightarrow> send_error w h1 ''PROCESSING_ERROR'' (describe w e)) of
        (r, h2) \<Rightarrow> (r, h2\<lparr>conn := (conn h2)\<lparr>wclosed := True\<rparr>\<rparr>))"


text \<open>Whether an item written to the client is a \<open>progress\<close> message.\<close>

fun is_progress :: "out_item \<Rightarrow> bool" where
  "is_progress (Msg m) = (dict_get m ''type'' = Inr (Some (JString ''progress'')))"
| "is_progress (Raw bs) = False"

text \<open>
  Example inputs: a handler at the start of a connection with an empty store, a first
  message of the wrong type, a handshake, and a world in which the uploaded file cannot be
  opened as a video, so that \<open>_extract_and_dispatch_frames_sync\<close> raises \<open>ValueError\<close>.
\<close>

definition new_handler :: handler where
  "new_handler =
     \<lparr>session_id = ''1a2b3c4d'',
      conn = \<lparr>outbox = [], wclosed = False\<rparr>,
      store = \<lparr>kv = Map.empty, expiry = Map.empty, issued = 0\<rparr>\<rparr>"


definition hello :: json where
  "hello = JObject [(''type'', JString ''handshake''), (''processing'', JString ''blur'')]"

definition bad_video_world :: world where
  "bad_video_world =
     \<lparr>patience = None, redis_client = True, budget = None,
      describe = (\<lambda>e. ''No se pudo abrir el video''),
      receive_video = Inr ''input_1a2b3c4d.mp4'',
      dispatch_tasks = Inl ValueError,
      get_celery_results = Inr [],
      cv = env_ok, path_exists = (\<lambda>p. False), imread = (\<lambda>p. None),
      get_summary = (\<lambda>m. JObject []),
      read_video_file = (\<lambda>p. Inl OSError),
      clock = (\<lambda>n. 0)\<rparr>"

text \<open>
  The keys of a session under which progress is looked for: the three that the claim
  names, and \<open>processed_frames\<close>, the name that \<open>progress_callback\<close> uses.
\<close>

definition progress_keys :: "string \<Rightarrow> string list" where
  "progress_keys sid =
     map (session_key sid) [''frames_processed'', ''processed_frames'', ''current_fps'',
                            ''eta_seconds'']"

text \<open>
  A world in which a video of 30 frames is processed without any failure: every frame is
  found on disk with its stats, the client stays connected and Redis answers.
\<close>

definition thirty_frames :: "frame_result list" where
  "thirty_frames =
     map (\<lambda>i. Found ''frame.png''
                 \<lparr>st_error = None, st_processing_time_ms = Some 12,
                  st_hostname = Some ''worker1'', st_filter_applied = Some ''blur'',
                  st_memory_mb = Some 100\<rparr>) [0 ..< 30]"

definition thirty_world :: world where
  "thirty_world =
     \<lparr>patience = None, redis_client = True, budget = None,
      describe = (\<lambda>e. []),
      receive_video = Inr ''input_1a2b3c4d.mp4'',
      dispatch_tasks =
        Inr (map int [0 ..< 30], (\<lambda>i. Some frame_a),
             \<lparr>vp_fps = 30, vp_total_frames = 30, vp_width = 2, vp_height = 1\<rparr>),
      get_celery_results = Inr thirty_frames,
      cv = env_ok, path_exists = (\<lambda>p. True), imread = (\<lambda>p. Some frame_a),
      get_summary = (\<lambda>m. JObject [(''frames_processed'', JInt (int (frames_processed m)))]),
      read_video_file = (\<lambda>p. Inr [0, 1, 2]),
      clock = (\<lambda>n. real n)\<rparr>"


section \<open>Worker (FINAL/src/worker.py)\<close>

text \<open>
  The format \<open>{n:06d}\<close>: the decimal digits of \<open>n\<close>, padded with zeros to six characters,
  the sign of a negative number included.
\<close>

fun decimal :: "nat \<Rightarrow> string" where
  "decimal n = (if n < 10 then [''0123456789'' ! n]
                else decimal (n div 10) @ [''0123456789'' ! (n mod 10)])"

declare decimal.simps [simp del]

definition zero_pad :: "nat \<Rightarrow> string \<Rightarrow> string" where
  "zero_pad width s = replicate (width - length s) CHR ''0'' @ s"

definition format_06d :: "int \<Rightarrow> string" where
  "format_06d n =
     (if n < 0 then CHR ''-'' # zero_pad 5 (decimal (nat (- n)))
      else zero_pad 6 (decimal (nat n)))"

text \<open>
  The files of the shared volume: a PNG image file holds a frame, a JSON file holds a
  value.
\<close>

datatype file_content = Png frame | Json json

type_synonym file_system = "string \<rightharpoonup> file_content"

text \<open>
  What a run of the task depends on outside the repository: OpenCV's decoder and
  \<open>imwrite\<close>, the filter library, the clock, the memory of the process, and the Celery
  request (its identifier, the host name and the number of retries so far). \<open>run_filter\<close>
  stands for the branch of \<open>process_frame\<close> on one of the five known processing types:
  it yields the processed frame and the name of the filter, or the exception raised.
  \<open>py_format\<close> is the text that an f-string inserts for a value.
\<close>

record worker_env =
  imdecode :: "byte list \<Rightarrow> frame option"
  run_filter :: "string \<Rightarrow> json \<Rightarrow> frame \<Rightarrow> error + (frame \<times> string)"
  imwrite :: "string \<Rightarrow> frame \<Rightarrow> bool"
  py_format :: "json \<Rightarrow> string"
  exc_text :: "error \<Rightarrow> string"
  time_start :: real
  time_end :: real
  memory_start :: real
  memory_end :: real
  request_id :: string
  request_hostname :: string
  request_retries :: nat

definition max_retries :: nat where
  "max_retries = 3"

definition known_processing :: "string list" where
  "known_processing = [''blur'', ''edges'', ''faces'', ''motion'', ''custom'']"

text \<open>The processing step: an unknown type leaves the frame as it is, with the name \<open>none\<close>.\<close>

definition apply_processing ::
  "worker_env \<Rightarrow> string \<Rightarrow> json \<Rightarrow> frame \<Rightarrow> error + (frame \<times> string)" where
  "apply_processing env processing_type metadata frame =
     (if processing_type \<in> set known_processing
      then run_filter env processing_type metadata frame
      else Inr (frame, ''none''))"

text \<open>\<open>os.path.join(f'/app/data/frames/{session_id}', f'frame_{frame_number:06d}' + ext)\<close>.\<close>

definition frame_file :: "worker_env \<Rightarrow> json \<Rightarrow> int \<Rightarrow> string \<Rightarrow> string" where
  "frame_file env sid frame_number ext =
     ''/app/data/frames/'' @ py_format env sid @ ''/'' @ ''frame_'' @ format_06d frame_number
       @ ext"

definition success_stats :: "worker_env \<Rightarrow> string \<Rightarrow> json" where
  "success_stats env filter_name =
     JObject [(''processing_time_ms'', JFloat (fmul (fsub (time_end env) (time_start env)) 1000)),
              (''memory_mb'', JFloat (memory_end env)),
              (''memory_delta_mb'', JFloat (fsub (memory_end env) (memory_start env))),
              (''filter_applied'', JString filter_name),
              (''worker_id'', JString (request_id env)),
              (''hostname'', JString (request_hostname env))]"

definition error_stats :: "worker_env \<Rightarrow> error \<Rightarrow> json" where
  "error_stats env e =
     JObject [(''processing_time_ms'', JInt 0),
              (''memory_mb'', JInt 0),
              (''memory_delta_mb'', JInt 0),
              (''filter_applied'', JString ''error''),
              (''worker_id'', JString (request_id env)),
              (''error'', JString (exc_text env e))]"

definition task_result :: "string \<Rightarrow> int \<Rightarrow> json \<Rightarrow> json" where
  "task_result frame_path frame_number stats =
     JObject [(''frame_path'', JString frame_path), (''frame_number'', JInt frame_number),
              (''stats'', stats)]"

text \<open>
  The \<open>try\<close> block of \<open>process_frame\<close>: the value returned or the exception raised, and
  the files afterwards.
\<close>

definition process_frame_try ::
  "worker_env \<Rightarrow> file_system \<Rightarrow> byte list \<Rightarrow> int \<Rightarrow> string \<Rightarrow> json
     \<Rightarrow> (error + json) \<times> file_system" where
  "process_frame_try env fs frame_data frame_number processing_type metadata =
     (case imdecode env frame_data of
        None \<Rightarrow> (Inl ValueError, fs)
      | Some frame \<Rightarrow>
         (case apply_processing env processing_type metadata frame of
            Inl e \<Rightarrow> (Inl e, fs)
          | Inr (processed_frame, filter_name) \<Rightarrow>
             (case dict_get_or metadata ''session_id'' (JString ''default'') of
                Inl e \<Rightarrow> (Inl e, fs)
              | Inr sid \<Rightarrow>
                 (let frame_path = frame_file env sid frame_number ''.png''
                  in if \<not> imwrite env frame_path processed_frame then (Inl ValueError, fs)
                     else
                       (let fs1 = fs(frame_path \<mapsto> Png processed_frame);
                            stats = success_stats env filter_name;
                            stats_path = frame_file env sid frame_number ''.json''
                        in (Inr (task_result frame_path frame_number stats),
                            fs1(stats_path \<mapsto> Json stats)))))))"

text \<open>
  The \<open>except Exception\<close> clause: \<open>self.retry\<close> raises \<open>Retry\<close> while retries are left;
  afterwards the original frame is saved, if it can be decoded and written, and the
  dictionary with the error is returned.
\<close>

definition process_frame_except ::
  "worker_env \<Rightarrow> file_system \<Rightarrow> byte list \<Rightarrow> int \<Rightarrow> json \<Rightarrow> error
     \<Rightarrow> (error + json) \<times> file_system" where
  "process_frame_except env fs frame_data frame_number metadata e =
     (if request_retries env < max_retries then (Inl Retry, fs)
      else
        (case dict_get_or metadata ''session_id'' (JString ''default'') of
           Inl e' \<Rightarrow> (Inl e', fs)
         | Inr sid \<Rightarrow>
            (let frame_path = frame_file env sid frame_number ''.png'';
                 fs1 = (case imdecode env frame_data of
                          None \<Rightarrow> fs
                        | Some frame \<Rightarrow>
                            if imwrite env frame_path frame then fs(frame_path \<mapsto> Png frame)
                            else fs)
             in (Inr (task_result frame_path frame_number (error_stats env e)), fs1))))"

text \<open>\<open>process_frame\<close>. \<open>metadata or {}\<close> replaces a falsy \<open>metadata\<close> by the empty dictionary.\<close>

definition process_frame ::
  "worker_env \<Rightarrow> file_system \<Rightarrow> byte list \<Rightarrow> int \<Rightarrow> string \<Rightarrow> json
     \<Rightarrow> (error + json) \<times> file_system" where
  "process_frame env fs frame_data frame_number processing_type metadata0 =
     (let metadata = (if truthy metadata0 then metadata0 else JObject [])
      in case process_frame_try env fs frame_data frame_number processing_type metadata of
           (Inr result, fs1) \<Rightarrow> (Inr result, fs1)
         | (Inl e, fs1) \<Rightarrow> process_frame_except env fs1 frame_data frame_number metadata e)"

text \<open>
  Example inputs: the metadata of a session, and a worker whose filter raises on every
  frame and whose three retries are used up.
\<close>

definition session_metadata :: json where
  "session_metadata = JObject [(''type'', JString ''handshake''),
                               (''session_id'', JString ''1a2b3c4d'')]"

definition exhausted_worker :: worker_env where
  "exhausted_worker =
     \<lparr>imdecode = (\<lambda>bs. Some frame_a),
      run_filter = (\<lambda>t m f. Inl ValueError),
      imwrite = (\<lambda>p f. True),
      py_format = (\<lambda>v. case v of JString s \<Rightarrow> s | _ \<Rightarrow> []),
      exc_text = (\<lambda>e. ''filter failed''),
      time_start = 0, time_end = 1, memory_start = 100, memory_end = 100,
      request_id = ''task-7'', request_hostname = ''worker1'',
      request_retries = 3\<rparr>"

definition healthy_worker :: worker_env where
  "healthy_worker = exhausted_worker\<lparr>run_filter := (\<lambda>t m f. Inr (f, ''blur_gaussian'')),
                                       request_retries := 0\<rparr>"


chapter \<open>Verified properties\<close>

section \<open>Properties of the metrics collector\<close>

lemma record_frame_consistent:
  "counters_consistent m \<Longrightarrow> counters_consistent (record_frame m n t w f mem failed)"
  by (simp add: counters_consistent_def record_frame_def Let_def)

lemma metrics_step_consistent:
  "counters_consistent m \<Longrightarrow> counters_consistent (metrics_step m c)"
proof (cases c)
  case (RecordFrame n t w f mem failed)
  assume "counters_consistent m"
  then show ?thesis
    using RecordFrame by (simp add: record_frame_consistent)
next
  case RecordRetry
  assume "counters_consistent m"
  then show ?thesis
    using RecordRetry by (simp add: counters_consistent_def record_retry_def)
next
  case (SetTotalFrames tot)
  assume "counters_consistent m"
  then show ?thesis
    using SetTotalFrames by (simp add: counters_consistent_def set_total_frames_def)
next
  case (Reset now)
  then show ?thesis
    by (simp add: counters_consistent_def reset_def)
qed

lemma metrics_run_consistent:
  "counters_consistent m \<Longrightarrow> counters_consistent (metrics_run m calls)"
  unfolding metrics_run_def
  by (induction calls arbitrary: m) (simp_all add: metrics_step_consistent)

text \<open>
  Claim C8. From a freshly constructed collector, after any sequence of
  \<open>record_frame\<close>, \<open>record_retry\<close>, \<open>set_total_frames\<close> and \<open>reset\<close> calls, the counter
  \<open>frames_processed\<close> equals \<open>frames_failed\<close> plus the number of latency samples.
\<close>

theorem metrics_counters_invariant:
  "frames_processed (metrics_run (metrics_init now) calls) =
     frames_failed (metrics_run (metrics_init now) calls)
       + length (latencies (metrics_run (metrics_init now) calls))"
proof -
  have "counters_consistent (metrics_init now)"
    by (simp add: counters_consistent_def metrics_init_def)
  then have "counters_consistent (metrics_run (metrics_init now) calls)"
    by (rule metrics_run_consistent)
  then show ?thesis
    by (simp add: counters_consistent_def)
qed

subsection \<open>Percentiles\<close>

lemma bit_length_numeral:
  "bit_length 0 = 0"
  "bit_length (Suc 0) = 1"
  "bit_length (numeral n) = Suc (bit_length (numeral n div 2))"
  by (simp_all add: bit_length.simps)

lemmas double_eval =
  to_double_def binexp_def pow2_def round_half_even_def Let_def bit_length_numeral

lemma float_1_3_is_float: "to_double (13 / 10) = float_1_3"
  by (simp add: float_1_3_def double_eval)

lemma equal_samples_latencies: "latencies equal_samples = [float_1_3, float_1_3]"
  by (simp add: equal_samples_def metrics_run_def metrics_init_def record_frame_def
      truthy_str_def)

lemma rank_99: "fdiv (fmul (float_of_int 1) 99) (float_of_int 100)
                  = 4458563631096791 / 4503599627370496"
  by (simp add: fdiv_def fmul_def float_of_int_def double_eval)

lemma weight_low: "fsub (float_of_int 1) (4458563631096791 / 4503599627370496)
                     = 45035996273705 / 4503599627370496"
  by (simp add: fsub_def float_of_int_def double_eval)

lemma weight_high: "fsub (4458563631096791 / 4503599627370496) (float_of_int 0)
                      = 4458563631096791 / 4503599627370496"
  by (simp add: fsub_def float_of_int_def double_eval)

lemma part_low: "fmul float_1_3 (45035996273705 / 4503599627370496)
                   = 117093590311633 / 9007199254740992"
  by (simp add: fmul_def float_1_3_def double_eval)

lemma part_high: "fmul float_1_3 (4458563631096791 / 4503599627370496)
                    = 1449033180106457 / 1125899906842624"
  by (simp add: fmul_def float_1_3_def double_eval)

lemma parts_sum: "fadd (117093590311633 / 9007199254740992)
                    (1449033180106457 / 1125899906842624)
                    = 1463669878895411 / 1125899906842624"
  by (simp add: fadd_def double_eval)

text \<open>
  Claim C9 says that a percentile of a sample that is not empty lies between the minimum
  and the maximum of the sample. On the two latencies \<open>1.3\<close> and \<open>1.3\<close> the query for the
  99th percentile, one that \<open>get_summary\<close> makes, returns the float \<open>1.2999999999999998\<close>,
  which is below the minimum \<open>1.3\<close> of the sample: the two rounded products do not add up
  to the sample value.
\<close>

theorem get_percentile_below_minimum:
  "get_percentile equal_samples 99 = Inr (1463669878895411 / 1125899906842624)
     \<and> (1463669878895411 / 1125899906842624 :: real) < Min (set (latencies equal_samples))"
proof -
  have "sort [float_1_3, float_1_3] = [float_1_3, float_1_3]"
    by simp
  then have "get_percentile equal_samples 99 = Inr (1463669878895411 / 1125899906842624)"
    by (simp add: get_percentile_def equal_samples_latencies Let_def rank_99 py_int_def
        py_index_def weight_low weight_high part_low part_high parts_sum)
  moreover have "(1463669878895411 / 1125899906842624 :: real) < float_1_3"
    by (simp add: float_1_3_def)
  ultimately show ?thesis
    by (simp add: equal_samples_latencies)
qed

subsection \<open>Frame buffer: every index is written once, in order\<close>

lemma buf_inv_pop:
  assumes inv: "buf_inv wr w0 A b ws" and hit: "map_of (buffer b) (next_frame_number b) = Some f"
  shows "buf_inv wr w0 A
           (b\<lparr>buffer := AList.delete (next_frame_number b) (buffer b),
              writer := wr (writer b) f,
              next_frame_number := next_frame_number b + 1\<rparr>) (ws @ [f])"
    and "(int (length ws), f) \<in> A"
  using inv hit by (auto simp: buf_inv_def delete_conv')

lemma buf_inv_update:
  assumes inv: "buf_inv wr w0 A b ws"
  shows "buf_inv wr w0 (insert (i, f) A) (b\<lparr>buffer := AList.update i f (buffer b)\<rparr>) ws"
  using inv by (auto simp: buf_inv_def update_conv')

lemma supplied_ok_snoc:
  "supplied_ok A ws \<Longrightarrow> (int (length ws), f) \<in> A \<Longrightarrow> supplied_ok A (ws @ [f])"
  by (auto simp: supplied_ok_def nth_append less_Suc_eq)

lemma supplied_ok_mono: "supplied_ok A ws \<Longrightarrow> A \<subseteq> B \<Longrightarrow> supplied_ok B ws"
  by (auto simp: supplied_ok_def)

lemma add_frame_loop_inv:
  "buf_inv wr w0 A b ws \<Longrightarrow> supplied_ok A ws \<Longrightarrow>
     \<exists>ws'. buf_inv wr w0 A (fst (add_frame_loop wr b k)) ws' \<and> supplied_ok A ws'"
proof (induction wr b k arbitrary: ws rule: add_frame_loop.induct)
  case (1 wr b written)
  show ?case
  proof (cases "map_of (buffer b) (next_frame_number b)")
    case None
    then show ?thesis using "1.prems" by (subst add_frame_loop.simps) auto
  next
    case (Some f)
    let ?b = "b\<lparr>buffer := AList.delete (next_frame_number b) (buffer b),
              writer := wr (writer b) f,
              next_frame_number := next_frame_number b + 1\<rparr>"
    have "buf_inv wr w0 A ?b (ws @ [f])" "supplied_ok A (ws @ [f])"
      using buf_inv_pop [OF "1.prems"(1) Some] "1.prems"(2) by (auto intro: supplied_ok_snoc)
    from "1.IH" [OF Some this]
    show ?thesis using Some by (subst add_frame_loop.simps) simp
  qed
qed

lemma add_frame_inv:
  assumes "buf_inv wr w0 A b ws" "supplied_ok A ws"
  shows "\<exists>ws'. buf_inv wr w0 (insert (i, f) A) (fst (add_frame wr b i f)) ws'
           \<and> supplied_ok (insert (i, f) A) ws'"
  unfolding add_frame_def
  using add_frame_loop_inv [OF buf_inv_update [OF assms(1)] supplied_ok_mono [OF assms(2)], of i f 0]
  by auto

lemma add_frames_inv:
  assumes "buf_inv wr w0 A b ws" "supplied_ok A ws"
  shows "\<exists>ws'. buf_inv wr w0 (A \<union> set calls) (add_frames wr b calls) ws'
           \<and> supplied_ok (A \<union> set calls) ws'"
  using assms
proof (induction calls arbitrary: A b ws)
  case Nil
  then show ?case by (auto simp: add_frames_def)
next
  case (Cons c calls)
  obtain i f where c: "c = (i, f)" by (cases c)
  from add_frame_inv [OF Cons.prems, of i f]
  obtain ws1 where 1: "buf_inv wr w0 (insert (i, f) A) (fst (add_frame wr b i f)) ws1"
    "supplied_ok (insert (i, f) A) ws1" by blast
  from Cons.IH [OF 1]
  show ?case by (simp add: add_frames_def c Un_commute)
qed

lemma filled_ok_snoc:
  "filled_ok A z ws \<Longrightarrow>
   (if int (length ws) \<in> fst ` A then (int (length ws), f) \<in> A else f = z) \<Longrightarrow>
   filled_ok A z (ws @ [f])"
  by (auto simp: filled_ok_def nth_append less_Suc_eq)

lemma supplied_filled: "supplied_ok A ws \<Longrightarrow> filled_ok A z ws"
  by (force simp: supplied_ok_def filled_ok_def)

lemma buf_inv_miss:
  assumes inv: "buf_inv wr w0 A b ws" and miss: "map_of (buffer b) (next_frame_number b) = None"
  shows "buf_inv wr w0 A
           (b\<lparr>writer := wr (writer b) f, next_frame_number := next_frame_number b + 1\<rparr>)
           (ws @ [f])"
    and "int (length ws) \<notin> fst ` A"
  using inv miss by (auto simp: buf_inv_def)

lemma flush_loop_inv:
  "(\<And>w f. fsz w = Some (W, H) \<Longrightarrow> fsz (wr w f) = Some (W, H)) \<Longrightarrow>
     buf_inv wr w0 A b ws \<Longrightarrow> filled_ok A (np_zeros H W) ws \<Longrightarrow>
     fsz (writer b) = Some (W, H) \<Longrightarrow> next_frame_number b \<le> max 0 n \<Longrightarrow>
     \<exists>b' k' ws'. flush_loop wr fsz b n k = Inr (b', k') \<and> buf_inv wr w0 A b' ws'
        \<and> filled_ok A (np_zeros H W) ws' \<and> next_frame_number b' = max 0 n"
proof (induction wr fsz b n k arbitrary: ws rule: flush_loop.induct)
  case (1 wr fsz b total_frames written)
  show ?case
  proof (cases "next_frame_number b < total_frames")
    case False
    then have "next_frame_number b = max 0 total_frames"
      using "1.prems"(2,5) by (auto simp: buf_inv_def)
    then show ?thesis using False "1.prems" by (subst flush_loop.simps) auto
  next
    case True
    show ?thesis
    proof (cases "map_of (buffer b) (next_frame_number b)")
      case (Some f)
      let ?b1 = "b\<lparr>buffer := AList.delete (next_frame_number b) (buffer b)\<rparr>"
      let ?b = "?b1\<lparr>writer := wr (writer ?b1) f,
                     next_frame_number := next_frame_number ?b1 + 1\<rparr>"
      have eq: "?b = b\<lparr>buffer := AList.delete (next_frame_number b) (buffer b),
              writer := wr (writer b) f,
              next_frame_number := next_frame_number b + 1\<rparr>" by simp
      have inv: "buf_inv wr w0 A ?b (ws @ [f])" and mem: "(int (length ws), f) \<in> A"
        using buf_inv_pop [OF "1.prems"(2) Some] unfolding eq by auto
      have ok: "filled_ok A (np_zeros H W) (ws @ [f])"
        using "1.prems"(3) mem by (intro filled_ok_snoc) (auto simp: image_iff)
      have fs: "fsz (writer ?b) = Some (W, H)" using "1.prems"(1,4) by simp
      have le: "next_frame_number ?b \<le> max 0 total_frames" using True by simp
      have step: "flush_loop wr fsz b total_frames written =
                  flush_loop wr fsz ?b total_frames (written + 1)"
        using True Some by (subst flush_loop.simps) simp
      have sel: "(case map_of (buffer b) (next_frame_number b) of
                    None \<Rightarrow>
                      (case fsz (writer b) of None \<Rightarrow> Inl TypeError
                       | Some s \<Rightarrow> Inr (b, np_zeros (snd s) (fst s)))
                  | Some buffered \<Rightarrow>
                      Inr (b\<lparr>buffer := AList.delete (next_frame_number b) (buffer b)\<rparr>,
                           buffered)) = Inr (?b1, f)"
        using Some by simp
      from "1.IH" [OF True sel refl "1.prems"(1) inv ok fs le]
      show ?thesis unfolding step by simp
    next
      case None
      let ?f = "np_zeros H W"
      let ?b = "b\<lparr>writer := wr (writer b) ?f,
                     next_frame_number := next_frame_number b + 1\<rparr>"
      have inv: "buf_inv wr w0 A ?b (ws @ [?f])" and nmem: "int (length ws) \<notin> fst ` A"
        using buf_inv_miss [OF "1.prems"(2) None] by auto
      have ok: "filled_ok A (np_zeros H W) (ws @ [?f])"
        using "1.prems"(3) nmem by (intro filled_ok_snoc) auto
      have fs: "fsz (writer ?b) = Some (W, H)" using "1.prems"(1,4) by simp
      have le: "next_frame_number ?b \<le> max 0 total_frames" using True by simp
      have step: "flush_loop wr fsz b total_frames written =
                  flush_loop wr fsz ?b total_frames (written + 1)"
        using True None "1.prems"(4) by (subst flush_loop.simps) simp
      have sel: "(case map_of (buffer b) (next_frame_number b) of
                    None \<Rightarrow>
                      (case fsz (writer b) of None \<Rightarrow> Inl TypeError
                       | Some s \<Rightarrow> Inr (b, np_zeros (snd s) (fst s)))
                  | Some buffered \<Rightarrow>
                      Inr (b\<lparr>buffer := AList.delete (next_frame_number b) (buffer b)\<rparr>,
                           buffered)) = Inr (b, ?f)"
        using None "1.prems"(4) by simp
      from "1.IH" [OF True sel refl "1.prems"(1) inv ok fs le]
      show ?thesis unfolding step by simp
    qed
  qed
qed

lemma foldl_keeps_frame_size:
  assumes keep: "\<And>w f. fsz w = Some d \<Longrightarrow> fsz (wr w f) = Some d"
  shows "fsz w0 = Some d \<Longrightarrow> fsz (foldl wr w0 ws) = Some d"
  by (induction ws rule: rev_induct) (simp_all add: keep)

lemma supplied_ok_length:
  assumes ok: "supplied_ok A ws" and idx: "\<forall>p \<in> A. fst p < n"
  shows "int (length ws) \<le> max 0 n"
proof (cases ws rule: rev_cases)
  case Nil
  then show ?thesis by simp
next
  case (snoc ys y)
  then have "length ys < length ws" by simp
  then have "(int (length ys), ws ! length ys) \<in> A"
    using ok unfolding supplied_ok_def by blast
  then have "int (length ys) < n" using idx by force
  then show ?thesis using snoc by simp
qed

lemma all_less_4: "(\<forall>i < (4 :: nat). P i) \<longleftrightarrow> P 0 \<and> P 1 \<and> P 2 \<and> P 3"
  by (auto simp: less_Suc_eq numeral_eq_Suc)

text \<open>
  Claim C1. Let the writer have the declared dimensions \<open>(W, H)\<close>, which no write
  changes. After any sequence of \<open>add_frame(i, frame)\<close> calls with indices in
  \<open>0..n-1\<close> followed by \<open>flush_remaining(n)\<close>, the writer has received exactly the
  frames of a list of length \<open>n\<close>, in the order of the list, one \<open>write\<close> call each:
  position \<open>i\<close> holds a frame that was supplied for index \<open>i\<close>, or the zero frame of the
  declared dimensions when no call supplied index \<open>i\<close>. The statement holds for every
  writer, in particular for one that records its calls.
\<close>

theorem frame_buffer_writes_each_index_once:
  fixes wr :: "'w \<Rightarrow> frame \<Rightarrow> 'w"
  assumes idx: "\<forall>p \<in> set calls. 0 \<le> fst p \<and> fst p < n"
    and fs: "fsz w0 = Some (W, H)"
    and keep: "\<And>w f. fsz w = Some (W, H) \<Longrightarrow> fsz (wr w f) = Some (W, H)"
  shows "\<exists>b' k frames.
           flush_remaining wr fsz (add_frames wr (frame_buffer_init w0) calls) n = Inr (b', k)
           \<and> writer b' = foldl wr w0 frames
           \<and> length frames = nat n
           \<and> (\<forall>i < length frames.
                 if int i \<in> fst ` set calls then (int i, frames ! i) \<in> set calls
                 else frames ! i = np_zeros H W)"
proof -
  have "buf_inv wr w0 {} (frame_buffer_init w0) []" "supplied_ok {} []"
    by (simp_all add: buf_inv_def frame_buffer_init_def supplied_ok_def)
  from add_frames_inv [OF this, of calls]
  obtain ws1 where inv1: "buf_inv wr w0 (set calls) (add_frames wr (frame_buffer_init w0) calls) ws1"
    and ok1: "supplied_ok (set calls) ws1" by auto
  let ?b1 = "add_frames wr (frame_buffer_init w0) calls"
  have w1: "writer ?b1 = foldl wr w0 ws1" and n1: "next_frame_number ?b1 = int (length ws1)"
    using inv1 by (simp_all add: buf_inv_def)
  have fs1: "fsz (writer ?b1) = Some (W, H)"
    unfolding w1 using keep fs by (rule foldl_keeps_frame_size)
  have le1: "next_frame_number ?b1 \<le> max 0 n"
    unfolding n1 using ok1 idx by (intro supplied_ok_length) auto
  from flush_loop_inv [OF keep inv1 supplied_filled [OF ok1] fs1 le1, of 0]
  obtain b' k' ws' where fl: "flush_loop wr fsz ?b1 n 0 = Inr (b', k')"
    and inv': "buf_inv wr w0 (set calls) b' ws'"
    and ok': "filled_ok (set calls) (np_zeros H W) ws'"
    and n': "next_frame_number b' = max 0 n" by blast
  have "length ws' = nat n" using inv' n' by (auto simp: buf_inv_def)
  moreover have "writer b' = foldl wr w0 ws'" using inv' by (simp add: buf_inv_def)
  ultimately show ?thesis
    using fl ok' unfolding flush_remaining_def filled_ok_def by blast
qed

lemma vw_write_frame_size:
  "frame_size w = Some d \<Longrightarrow> frame_size (writer_write env w f) = Some d"
  by (auto simp: writer_write_def vw_write_def vw_open_def Let_def
      split: sum.splits option.splits if_splits prod.splits)

lemma list4:
  assumes "length xs = 4"
  shows "xs = [xs ! 0, xs ! 1, xs ! 2, xs ! 3]"
  using assms by (intro nth_equalityI) (auto simp: nth_Cons' less_Suc_eq numeral_eq_Suc)

theorem frame_buffer_writes_each_index_once_witness:
  "\<exists>b' k. flush_remaining (writer_write env_ok) frame_size
            (add_frames (writer_write env_ok)
               (frame_buffer_init (video_writer_init (Some (2, 1))))
               [(2, frame_a), (0, frame_b)]) 4 = Inr (b', k)
          \<and> cv_writer (writer b') = Some [frame_b, np_zeros 1 2, frame_a, np_zeros 1 2]
          \<and> frame_count (writer b') = 4"
proof -
  let ?w0 = "video_writer_init (Some (2, 1))"
  let ?calls = "[(2 :: int, frame_a), (0, frame_b)]"
  have idx: "\<forall>p \<in> set ?calls. 0 \<le> fst p \<and> fst p < 4" by simp
  have fs: "frame_size ?w0 = Some (2, 1)" by (simp add: video_writer_init_def)
  from frame_buffer_writes_each_index_once
         [of ?calls 4 frame_size ?w0 2 1 "writer_write env_ok", OF idx fs vw_write_frame_size]
  obtain b' k frames where
    run: "flush_remaining (writer_write env_ok) frame_size
            (add_frames (writer_write env_ok) (frame_buffer_init ?w0) ?calls) 4 = Inr (b', k)"
    and wr: "writer b' = foldl (writer_write env_ok) ?w0 frames"
    and len: "length frames = 4"
    and each: "\<forall>i < length frames.
                 if int i \<in> fst ` set ?calls then (int i, frames ! i) \<in> set ?calls
                 else frames ! i = np_zeros 1 2"
    by auto
  have "frames ! 0 = frame_b" "frames ! 1 = np_zeros 1 2" "frames ! 2 = frame_a"
    "frames ! 3 = np_zeros 1 2"
    using each len by (auto simp: all_less_4)
  with list4 [OF len] have frames: "frames = [frame_b, np_zeros 1 2, frame_a, np_zeros 1 2]"
    by simp
  have "cv_writer (writer b') = Some [frame_b, np_zeros 1 2, frame_a, np_zeros 1 2]"
    "frame_count (writer b') = 4"
    unfolding wr frames
    by (simp_all add: writer_write_def vw_write_def vw_open_def video_writer_init_def env_ok_def
        frame_a_def frame_b_def np_zeros_def Let_def)
  with run show ?thesis by blast
qed

subsection \<open>Video writer: frames are fitted to the configured size\<close>

text \<open>
  Claim C10. On an open writer with a configured \<open>frame_size\<close>, \<open>write\<close> hands the
  encoder the frame itself when its (width, height) equal \<open>frame_size\<close> and the frame
  resized to \<open>frame_size\<close> otherwise, so the frame the encoder receives has exactly the
  configured dimensions; when the encoder accepts it, the result is \<open>True\<close> and
  \<open>frame_count\<close> has increased by exactly one, and when the encoder raises, the result is
  \<open>False\<close> and the writer is unchanged.
\<close>

theorem vw_write_fits_frame_size:
  assumes "is_open w" and "frame_size w = Some sz" and "cv_writer w = Some received"
  shows "\<exists>frame'.
           frame' = (if (fwidth frame, fheight frame) = sz then frame
                     else cv2_resize env frame sz)
           \<and> (fwidth frame', fheight frame') = sz
           \<and> vw_write env w frame =
               (if cv_write_raises env frame' then Inr (w, False)
                else Inr (w\<lparr>cv_writer := Some (received @ [frame']),
                            frame_count := frame_count w + 1\<rparr>, True))"
  using assms by (cases sz) (auto simp: vw_write_def cv2_resize_def)

lemma open_writer_eq:
  "open_writer = \<lparr>frame_size = Some (2, 1), cv_writer = Some [], is_open = True, frame_count = 0\<rparr>"
  by (simp add: open_writer_def vw_open_def video_writer_init_def env_ok_def)

theorem vw_write_fits_frame_size_witness:
  "is_open open_writer \<and> frame_size open_writer = Some (2, 1)
   \<and> cv_writer open_writer = Some []
   \<and> vw_write env_ok open_writer frame_small =
        Inr (open_writer\<lparr>cv_writer := Some [cv2_resize env_ok frame_small (2, 1)],
                         frame_count := 1\<rparr>, True)
   \<and> fwidth (cv2_resize env_ok frame_small (2, 1)) = 2
   \<and> fheight (cv2_resize env_ok frame_small (2, 1)) = 1"
proof -
  have h: "is_open open_writer" "frame_size open_writer = Some (2, 1)"
    "cv_writer open_writer = Some []"
    by (simp_all add: open_writer_eq)
  from vw_write_fits_frame_size [OF h, of frame_small env_ok]
  show ?thesis using h by (simp add: frame_small_def env_ok_def open_writer_eq)
qed

section \<open>Properties of the protocol codec\<close>

lemma unat_byte_of_nat: "unat (of_nat k :: byte) = k mod 256"
  by (simp add: unat_of_nat)

lemma be32_digits:
  fixes n :: nat
  assumes "n < 4294967296"
  shows "(n div 16777216) mod 256 * 16777216 + (n div 65536) mod 256 * 65536
          + (n div 256) mod 256 * 256 + n mod 256 = n"
proof -
  define a where "a = n div 256"
  define b where "b = a div 256"
  define c where "c = b div 256"
  define r0 where "r0 = n mod 256"
  define r1 where "r1 = a mod 256"
  define r2 where "r2 = b mod 256"
  have n: "n = a * 256 + r0" by (simp add: a_def r0_def)
  have a: "a = b * 256 + r1" by (simp add: b_def r1_def)
  have b: "b = c * 256 + r2" by (simp add: c_def r2_def)
  have "c < 256" using assms by (simp add: c_def b_def a_def div_mult2_eq [symmetric])
  then have c: "c mod 256 = c" by simp
  have d2: "n div 65536 = b" by (simp add: b_def a_def div_mult2_eq [symmetric])
  have d3: "n div 16777216 = c" by (simp add: c_def b_def a_def div_mult2_eq [symmetric])
  have "c * 16777216 + r2 * 65536 + r1 * 256 + r0 = n"
    using n a b by simp
  then show ?thesis
    unfolding d2 d3 c a_def [symmetric] r0_def [symmetric] r1_def [symmetric]
      r2_def [symmetric] .
qed

lemma struct_roundtrip:
  assumes "n < 2 ^ 32"
  shows "\<exists>bs. struct_pack_I n = Inr bs \<and> length bs = 4 \<and> struct_unpack_I bs = Inr n"
  using assms be32_digits [of n] by (simp add: struct_pack_I_def unat_byte_of_nat)

lemma recv_exact_loop_delivers:
  "sock = map Data segs \<Longrightarrow> [] \<notin> set segs \<Longrightarrow> length data \<le> n \<Longrightarrow>
   n - length data \<le> length (concat segs) \<Longrightarrow>
   \<exists>segs'. recv_exact_loop sock n data =
              Inr (data @ take (n - length data) (concat segs), map Data segs')
          \<and> [] \<notin> set segs' \<and> concat segs' = drop (n - length data) (concat segs)"
proof (induction sock n data arbitrary: segs rule: recv_exact_loop.induct)
  case (1 sock n data)
  show ?case
  proof (cases "length data < n")
    case False
    then have "n - length data = 0" by simp
    then show ?thesis
      using False "1.prems" by (subst recv_exact_loop.simps) auto
  next
    case True
    then have "0 < length (concat segs)" using "1.prems"(4) by linarith
    then have "segs \<noteq> []" by auto
    then obtain seg rest where segs: "segs = seg # rest" and seg: "seg \<noteq> []"
      using "1.prems"(2) by (cases segs) auto
    define k where "k = min chunk_size (n - length data)"
    have k0: "0 < k" using True by (simp add: k_def chunk_size_def)
    define chunk where "chunk = take k seg"
    define segs' where "segs' = (if k < length seg then drop k seg # rest else rest)"
    have chunk_ne: "chunk \<noteq> []" using seg k0 by (cases seg) (auto simp: chunk_def)
    have rcv: "sock_recv sock k = Inr (chunk, map Data segs')"
      using "1.prems"(1) by (simp add: segs chunk_def segs'_def)
    have ne': "[] \<notin> set segs'" using "1.prems"(2) by (auto simp: segs'_def segs)
    have clen: "length chunk \<le> n - length data" by (simp add: chunk_def k_def)
    have chunk_eq: "chunk = take (length chunk) (concat segs)"
      by (simp add: chunk_def segs min_def)
    have cat': "concat segs' = drop (length chunk) (concat segs)"
      by (auto simp: segs'_def segs chunk_def min_def)
    have le1: "length (data @ chunk) \<le> n" using clen True by simp
    have le2: "n - length (data @ chunk) \<le> length (concat segs')"
      using "1.prems"(4) by (simp add: cat')
    from "1.IH" [OF True rcv [unfolded k_def] refl chunk_ne refl ne' le1 le2]
    obtain segs'' where
      r: "recv_exact_loop (map Data segs') n (data @ chunk) =
            Inr ((data @ chunk) @ take (n - length (data @ chunk)) (concat segs'),
                 map Data segs'')"
      and ne'': "[] \<notin> set segs''"
      and cat'': "concat segs'' = drop (n - length (data @ chunk)) (concat segs')"
      by blast
    have step: "recv_exact_loop sock n data = recv_exact_loop (map Data segs') n (data @ chunk)"
      using True rcv chunk_ne by (subst recv_exact_loop.simps) (simp add: k_def)
    have split: "n - length data = length chunk + (n - length (data @ chunk))"
      using clen by simp
    have "take (n - length data) (concat segs)
            = chunk @ take (n - length (data @ chunk)) (concat segs')"
      unfolding cat' by (subst split, subst take_add, subst chunk_eq [symmetric]) simp
    moreover have "drop (n - length data) (concat segs)
            = drop (n - length (data @ chunk)) (concat segs')"
      unfolding cat' by (subst split) (simp add: add.commute)
    ultimately show ?thesis
      unfolding step using r ne'' cat'' by auto
  qed
qed

lemma recv_exact_delivers:
  assumes "[] \<notin> set segs" and "n \<le> length (concat segs)"
  shows "\<exists>segs'. recv_exact (map Data segs) n = Inr (take n (concat segs), map Data segs')
          \<and> [] \<notin> set segs' \<and> concat segs' = drop n (concat segs)"
  using recv_exact_loop_delivers [of "map Data segs" segs "[]" n] assms
  by (simp add: recv_exact_def)

lemma max_lt_2_32: "n \<le> max_message_length \<Longrightarrow> n < 2 ^ 32"
  by (simp add: max_message_length_def)

lemma no_empty_concat_Nil: "[] \<notin> set segs \<Longrightarrow> concat segs = [] \<Longrightarrow> segs = []"
  by (cases segs) auto

text \<open>
  Claim C6, amended. For every message \<open>m\<close> that the JSON library serialises to a payload
  of at most 100 MiB (104857600 bytes) and parses back to \<open>m\<close>: \<open>send_message\<close> on a
  working socket appends a 4-byte length prefix and the payload to what was sent, and
  \<open>recv_message\<close> on these bytes, in whatever pieces the transport delivers them, returns
  \<open>m\<close> and leaves nothing unread.
\<close>

theorem send_then_recv_roundtrip:
  assumes d: "dumps m = Inr payload" and l: "loads payload = Inr m"
    and len: "length payload \<le> max_message_length" and ok: "\<not> broken sock"
  shows "\<exists>wire. send_message dumps sock m = Inr (sock\<lparr>sent := sent sock @ wire\<rparr>)
           \<and> (\<forall>ins. delivers wire ins \<longrightarrow> recv_message loads ins = Inr (m, []))"
proof -
  from struct_roundtrip [OF max_lt_2_32 [OF len]]
  obtain bs where p: "struct_pack_I (length payload) = Inr bs" and b4: "length bs = 4"
    and u: "struct_unpack_I bs = Inr (length payload)" by blast
  have snd: "send_message dumps sock m = Inr (sock\<lparr>sent := sent sock @ bs @ payload\<rparr>)"
    using d p ok by (simp add: send_message_def sendall_def)
  have "recv_message loads ins = Inr (m, [])" if dl: "delivers (bs @ payload) ins" for ins
  proof -
    from dl obtain segs where ins: "ins = map Data segs" and cat: "concat segs = bs @ payload"
      and ne: "[] \<notin> set segs" by (auto simp: delivers_def)
    from recv_exact_delivers [OF ne, of 4]
    obtain segs1 where r1: "recv_exact (map Data segs) 4 = Inr (bs, map Data segs1)"
      and ne1: "[] \<notin> set segs1" and cat1: "concat segs1 = payload"
      using cat b4 by auto
    from recv_exact_delivers [OF ne1, of "length payload"]
    obtain segs2 where r2: "recv_exact (map Data segs1) (length payload) = Inr (payload, map Data segs2)"
      and ne2: "[] \<notin> set segs2" and cat2: "concat segs2 = []"
      using cat1 by auto
    have s2: "segs2 = []" using ne2 cat2 by (rule no_empty_concat_Nil)
    have bne: "bs \<noteq> []" using b4 by auto
    show ?thesis
      using r1 r2 u l len bne by (simp add: recv_message_def ins s2)
  qed
  with snd show ?thesis by blast
qed

lemma char_of_byte_of_char [simp]: "char_of_byte (byte_of_char c) = c"
proof -
  have "(of_char c :: nat) mod 256 = of_char c"
    by (metis char_of_char of_char_of)
  then show ?thesis
    by (simp add: char_of_byte_def byte_of_char_def unat_of_nat)
qed

lemma takeWhile_quote:
  assumes "list_all plain_byte xs"
  shows "takeWhile (\<lambda>b. b \<noteq> 34) (xs @ 34 # ys) = xs"
proof -
  have "\<forall>b \<in> set xs. b \<noteq> 34" using assms by (auto simp: list_all_iff plain_byte_def)
  then show ?thesis by (simp add: takeWhile_append2)
qed

lemma loads_field_bytes:
  assumes k: "list_all plain_byte key" and v: "list_all plain_byte val"
  shows "loads_plain (field_bytes key val)
           = Inr (JObject [(map char_of_byte key, JString (map char_of_byte val))])"
proof -
  have d2: "drop 2 (field_bytes key val) = key @ 34 # [58, 32, 34] @ val @ [34, 125]"
    by (simp add: field_bytes_def)
  have d6: "drop (6 + length key) (field_bytes key val) = val @ 34 # [125]"
  proof -
    have "field_bytes key val = ([123, 34] @ key @ [34, 58, 32, 34]) @ val @ 34 # [125]"
      by (simp add: field_bytes_def)
    moreover have "length ([123, 34] @ key @ [34, 58, 32, 34] :: byte list) = 6 + length key"
      by simp
    ultimately show ?thesis by (metis append_eq_conv_conj)
  qed
  have t1: "takeWhile (\<lambda>b. b \<noteq> 34) (drop 2 (field_bytes key val)) = key"
    unfolding d2 using k by (rule takeWhile_quote)
  have t2: "takeWhile (\<lambda>b. b \<noteq> 34) (drop (6 + length key) (field_bytes key val)) = val"
    unfolding d6 using v by (rule takeWhile_quote)
  show ?thesis
    unfolding loads_plain_def t1 t2 Let_def using k v by simp
qed

lemma plain_roundtrip:
  assumes "list_all plain_char k" and "list_all plain_char s"
  shows "\<exists>payload. dumps_plain (JObject [(k, JString s)]) = Inr payload
           \<and> payload = field_bytes (map byte_of_char k) (map byte_of_char s)
           \<and> loads_plain payload = Inr (JObject [(k, JString s)])"
proof -
  have "list_all plain_byte (map byte_of_char k)" "list_all plain_byte (map byte_of_char s)"
    using assms by (simp_all add: list_all_iff plain_char_def)
  from loads_field_bytes [OF this] show ?thesis
    using assms by (simp add: o_def)
qed

lemma plain_char_a: "plain_char CHR ''a''"
  by (simp add: plain_char_def plain_byte_def byte_of_char_def)

lemma plain_data: "list_all plain_char ''data''"
  by (simp add: plain_char_def plain_byte_def byte_of_char_def)

lemma plain_type: "list_all plain_char ''type''"
  by (simp add: plain_char_def plain_byte_def byte_of_char_def)

lemma plain_eof: "list_all plain_char ''eof''"
  by (simp add: plain_char_def plain_byte_def byte_of_char_def)

lemma big_codec:
  "dumps_plain big_message = Inr big_payload \<and> loads_plain big_payload = Inr big_message"
  using plain_roundtrip [OF plain_data, of "replicate 104857600 CHR ''a''"] plain_char_a
  by (simp add: big_message_def big_payload_def list_all_iff)

lemma big_payload_length: "length big_payload = 104857612"
  by (simp add: big_payload_def field_bytes_def)

lemma big_prefix: "struct_pack_I 104857612 = Inr [6, 64, 0, 12]"
  by (simp add: struct_pack_I_def)

lemma big_send:
  "send_message dumps_plain fresh_socket big_message
     = Inr \<lparr>sent = [6, 64, 0, 12] @ big_payload, broken = False\<rparr>"
  using big_codec
  by (simp add: send_message_def big_payload_length big_prefix sendall_def fresh_socket_def)

lemma big_recv:
  "recv_message loads_plain [Data ([6, 64, 0, 12] @ big_payload)] = Inl ProtocolError"
proof -
  have "[] \<notin> set [[6, 64, 0, 12] @ big_payload]"
    "4 \<le> length (concat [[6, 64, 0, 12] @ big_payload])"
    by simp_all
  from recv_exact_delivers [OF this]
  obtain segs' where
    "recv_exact [Data ([6, 64, 0, 12] @ big_payload)] 4 = Inr ([6, 64, 0, 12], map Data segs')"
    by auto
  then show ?thesis
    by (simp add: recv_message_def max_message_length_def)
qed

text \<open>
  Claim C6, as stated, fails for a message whose payload is longer than 100 MiB:
  \<open>send_message\<close> has no bound and sends it, the JSON library alone parses the payload
  back to the message, and \<open>recv_message\<close> refuses the declared length with
  \<open>ProtocolError\<close>.
\<close>

theorem oversize_message_counterexample:
  "send_message dumps_plain fresh_socket big_message
     = Inr \<lparr>sent = [6, 64, 0, 12] @ big_payload, broken = False\<rparr>
   \<and> loads_plain big_payload = Inr big_message
   \<and> recv_message loads_plain [Data ([6, 64, 0, 12] @ big_payload)] = Inl ProtocolError"
  using big_send big_codec big_recv by simp

lemma eof_codec:
  "dumps_plain eof_message = Inr eof_payload \<and> loads_plain eof_payload = Inr eof_message"
  using plain_roundtrip [OF plain_type plain_eof]
  by (simp add: eof_message_def eof_payload_def)

lemma eof_payload_length: "length eof_payload = 15"
  by (simp add: eof_payload_def field_bytes_def)

lemma eof_prefix: "struct_pack_I 15 = Inr [0, 0, 0, 15]"
  by (simp add: struct_pack_I_def)

text \<open>
  The amended claim C6 at a short message, delivered in three pieces that cut both the
  length prefix and the payload.
\<close>

theorem send_then_recv_roundtrip_witness:
  "send_message dumps_plain fresh_socket eof_message
     = Inr \<lparr>sent = [0, 0, 0, 15] @ eof_payload, broken = False\<rparr>
   \<and> recv_message loads_plain [Data [0, 0], Data ([0, 15] @ take 7 eof_payload),
                                 Data (drop 7 eof_payload)]
       = Inr (eof_message, [])"
proof -
  have d: "dumps_plain eof_message = Inr eof_payload"
    and l: "loads_plain eof_payload = Inr eof_message"
    using eof_codec by simp_all
  have len: "length eof_payload \<le> max_message_length"
    by (simp add: eof_payload_length max_message_length_def)
  have ok: "\<not> broken fresh_socket" by (simp add: fresh_socket_def)
  from send_then_recv_roundtrip [of dumps_plain eof_message eof_payload loads_plain fresh_socket,
      OF d l len ok]
  obtain wire where
    s: "send_message dumps_plain fresh_socket eof_message
          = Inr (fresh_socket\<lparr>sent := sent fresh_socket @ wire\<rparr>)"
    and r: "\<forall>ins. delivers wire ins \<longrightarrow> recv_message loads_plain ins = Inr (eof_message, [])"
    by blast
  have "send_message dumps_plain fresh_socket eof_message
          = Inr \<lparr>sent = [0, 0, 0, 15] @ eof_payload, broken = False\<rparr>"
    using d by (simp add: send_message_def eof_payload_length eof_prefix sendall_def
        fresh_socket_def)
  with s have w: "wire = [0, 0, 0, 15] @ eof_payload" and snd:
    "send_message dumps_plain fresh_socket eof_message
          = Inr \<lparr>sent = [0, 0, 0, 15] @ eof_payload, broken = False\<rparr>"
    by (simp_all add: fresh_socket_def)
  have "delivers wire [Data [0, 0], Data ([0, 15] @ take 7 eof_payload),
                       Data (drop 7 eof_payload)]"
    unfolding delivers_def w
    by (rule exI [of _ "[[0, 0], [0, 15] @ take 7 eof_payload, drop 7 eof_payload]"])
       (simp add: eof_payload_def field_bytes_def)
  with r snd show ?thesis by blast
qed

text \<open>
  The other cases of \<open>recv_message\<close>: a peer that closes before the prefix gives \<open>None\<close>,
  and a payload that ends early gives \<open>ProtocolError\<close>, as does a payload that the JSON
  library rejects.
\<close>

lemma recv_message_clean_close: "recv_message loads [] = Inr (JNull, [])"
  by (simp add: recv_message_def recv_exact_def recv_exact_loop.simps chunk_size_def)

lemma recv_message_short_payload:
  "recv_message loads [Data [0, 0, 0, 5, 123, 125]] = Inl ProtocolError"
  by (simp add: recv_message_def recv_exact_def recv_exact_loop.simps chunk_size_def
      max_message_length_def)

lemma recv_message_bad_json:
  "recv_message (\<lambda>bs. Inl JSONDecodeError) [Data [0, 0, 0, 2, 123, 123]] = Inl ProtocolError"
  by (simp add: recv_message_def recv_exact_def recv_exact_loop.simps chunk_size_def
      max_message_length_def)

lemma recv_message_bad_utf8:
  "recv_message (\<lambda>bs. Inl UnicodeDecodeError) [Data [0, 0, 0, 1, 255]]
     = Inl UnicodeDecodeError"
  by (simp add: recv_message_def recv_exact_def recv_exact_loop.simps chunk_size_def
      max_message_length_def)

text \<open>
  Claim C7 says that \<open>recv_message\<close> fails with a protocol error when fewer than 4 bytes
  of the length prefix arrive. When the peer closes after two bytes of the prefix,
  \<open>_recv_exact\<close> returns the two bytes, \<open>struct.unpack\<close> raises \<open>struct.error\<close>, and
  neither handler of \<open>recv_message\<close> catches it: the caller gets \<open>struct.error\<close>, not
  \<open>ProtocolError\<close>, whatever the JSON library is.
\<close>

theorem recv_message_short_prefix:
  "recv_message loads [Data [0, 0]] = Inl StructError"
  by (simp add: recv_message_def recv_exact_def recv_exact_loop.simps chunk_size_def)

section \<open>Properties of the client handler\<close>

lemma handle_after_error:
  assumes "handle_try w first h = (Some e, h1)"
  shows "handle w first h =
           (if writable (patience w) (conn h1) then None else Some OSError,
            h1\<lparr>conn := \<lparr>outbox = outbox (conn h1) @
                          (if writable (patience w) (conn h1)
                           then [Msg (make_error ''PROCESSING_ERROR'' (describe w e) False)]
                           else []),
                        wclosed = True\<rparr>\<rparr>)"
  using assms
  by (simp add: handle_def send_error_def send_message_to_def conn_write_def)

lemma redis_apply_kv:
  "kv (redis_apply cmd r) k = Some v \<Longrightarrow> kv r k = Some v \<or> cmd = Set k v"
  by (cases cmd) (auto split: if_splits)

lemma redis_try_kv:
  "kv (redis_try b cmds r) k = Some v \<Longrightarrow> kv r k = Some v \<or> Set k v \<in> set cmds"
proof (induction cmds arbitrary: r)
  case Nil
  then show ?case by simp
next
  case (Cons cmd cmds)
  show ?case
  proof (cases "redis_up b r")
    case True
    with Cons.prems have "kv (redis_try b cmds (redis_apply cmd r)) k = Some v" by simp
    from Cons.IH [OF this] redis_apply_kv [of cmd r k v] show ?thesis by auto
  next
    case False
    with Cons.prems show ?thesis by simp
  qed
qed

lemma metadata_never_failed: "Set k (RStr ''failed'') \<notin> set (metadata_cmds w sid first props)"
  by (auto simp: metadata_cmds_def split: sum.splits)

lemma completed_never_failed: "Set k (RStr ''failed'') \<notin> set (completed_cmds w sid)"
  by (simp add: completed_cmds_def)

lemma send_keeps_store: "send_message_to w h m = (r, h') \<Longrightarrow> store h' = store h"
  by (auto simp: send_message_to_def split: prod.splits)

lemma serve_store:
  assumes "serve w first h = (r, h')"
  shows "store h' = store h \<or>
         (\<exists>props. store h' = redis_try (budget w)
                                (metadata_cmds w (session_id h) first props) (store h) \<or>
                  store h' = redis_try (budget w) (completed_cmds w (session_id h))
                               (redis_try (budget w)
                                  (metadata_cmds w (session_id h) first props) (store h)))"
  using assms
  by (auto simp: serve_def Let_def send_message_to_def conn_write_def
      split: sum.splits prod.splits if_splits option.splits)

lemma serve_never_failed:
  assumes "serve w first h = (r, h')" and "kv (store h') k = Some (RStr ''failed'')"
  shows "kv (store h) k = Some (RStr ''failed'')"
proof -
  have step1: "kv s k = Some (RStr ''failed'')"
    if "kv (redis_try (budget w) (metadata_cmds w sid first props) s) k
          = Some (RStr ''failed'')" for sid props s
    using redis_try_kv [OF that] metadata_never_failed by blast
  have step2: "kv s k = Some (RStr ''failed'')"
    if "kv (redis_try (budget w) (completed_cmds w sid) s) k = Some (RStr ''failed'')" for sid s
    using redis_try_kv [OF that] completed_never_failed by blast
  from serve_store [OF assms(1)] assms(2) show ?thesis
    by (auto dest!: step2 step1)
qed

lemma handle_try_never_failed:
  assumes "handle_try w first h = (r, h')" and "kv (store h') k = Some (RStr ''failed'')"
  shows "kv (store h) k = Some (RStr ''failed'')"
proof (cases "not_a_handshake first")
  case (Inl e)
  with assms show ?thesis by (simp add: handle_try_def)
next
  case (Inr b)
  show ?thesis
  proof (cases b)
    case True
    with Inr assms show ?thesis
      by (auto simp: handle_try_def send_error_def dest: send_keeps_store)
  next
    case False
    obtain r1 h1 where ack:
      "send_message_to w h (make_handshake_ack True (session_id h) JNull) = (r1, h1)"
      by (cases "send_message_to w h (make_handshake_ack True (session_id h) JNull)")
    have st: "store h1 = store h" using ack by (rule send_keeps_store)
    show ?thesis
    proof (cases r1)
      case None
      with False Inr ack assms(1) have "serve w first h1 = (r, h')"
        by (simp add: handle_try_def)
      from serve_never_failed [OF this assms(2)] st show ?thesis by simp
    next
      case (Some e)
      with False Inr ack assms st show ?thesis by (simp add: handle_try_def)
    qed
  qed
qed

text \<open>
  Claim C3, as stated, fails: when the uploaded file cannot be opened as a video the
  handler sends the \<open>error\<close> message and closes the connection, and the state store holds no
  \<open>status\<close> for the session, neither \<open>failed\<close> nor anything else.
\<close>

theorem error_leaves_no_failed_status:
  "handle bad_video_world hello new_handler =
     (None,
      new_handler\<lparr>conn :=
        \<lparr>outbox = [Msg (make_handshake_ack True ''1a2b3c4d'' JNull),
                   Msg (make_error ''PROCESSING_ERROR'' ''No se pudo abrir el video'' False)],
         wclosed = True\<rparr>\<rparr>)
   \<and> kv (store (snd (handle bad_video_world hello new_handler)))
         (session_key ''1a2b3c4d'' ''status'') = None"
  by (simp add: handle_def handle_try_def not_a_handshake_def hello_def serve_def
      send_error_def send_message_to_def conn_write_def writable_def bad_video_world_def
      new_handler_def dict_get_or_def)

text \<open>
  Claim C3, amended. If an exception ends the \<open>try\<close> block of \<open>handle\<close>, the handler sends
  an \<open>error\<close> message with the code \<open>PROCESSING_ERROR\<close> to the client if the stream is still
  writable, and closes the connection. It writes nothing to the state store on the way:
  the store stays as the exception left it, and no key holds the value \<open>failed\<close> unless it
  held it before the session.
\<close>

theorem error_is_reported_and_store_left:
  assumes "handle_try w first h = (Some e, h1)"
  shows "handle w first h =
           (if writable (patience w) (conn h1) then None else Some OSError,
            h1\<lparr>conn := \<lparr>outbox = outbox (conn h1) @
                          (if writable (patience w) (conn h1)
                           then [Msg (make_error ''PROCESSING_ERROR'' (describe w e) False)]
                           else []),
                        wclosed = True\<rparr>\<rparr>)
         \<and> store (snd (handle w first h)) = store h1
         \<and> (\<forall>k. kv (store h1) k = Some (RStr ''failed'')
                \<longrightarrow> kv (store h) k = Some (RStr ''failed''))"
  using handle_after_error [OF assms] handle_try_never_failed [OF assms]
  by simp

theorem error_is_reported_and_store_left_witness:
  "handle_try bad_video_world hello new_handler =
     (Some ValueError,
      new_handler\<lparr>conn := \<lparr>outbox = [Msg (make_handshake_ack True ''1a2b3c4d'' JNull)],
                             wclosed = False\<rparr>\<rparr>)
   \<and> outbox (conn (snd (handle bad_video_world hello new_handler))) =
       [Msg (make_handshake_ack True ''1a2b3c4d'' JNull),
        Msg (make_error ''PROCESSING_ERROR'' ''No se pudo abrir el video'' False)]
   \<and> wclosed (conn (snd (handle bad_video_world hello new_handler)))
   \<and> store (snd (handle bad_video_world hello new_handler)) = store new_handler"
proof -
  have t: "handle_try bad_video_world hello new_handler =
     (Some ValueError,
      new_handler\<lparr>conn := \<lparr>outbox = [Msg (make_handshake_ack True ''1a2b3c4d'' JNull)],
                             wclosed = False\<rparr>\<rparr>)"
    by (simp add: handle_try_def not_a_handshake_def hello_def serve_def
        send_message_to_def conn_write_def writable_def bad_video_world_def
        new_handler_def dict_get_or_def)
  from error_is_reported_and_store_left [OF t] t show ?thesis
    by (simp add: writable_def bad_video_world_def new_handler_def)
qed




subsection \<open>Progress\<close>

lemma add_frame_loop_keeps_size:
  "frame_size (writer b) = Some d \<Longrightarrow>
     frame_size (writer (fst (add_frame_loop (writer_write env) b n))) = Some d"
proof (induction "writer_write env" b n rule: add_frame_loop.induct)
  case (1 b written)
  show ?case
  proof (cases "map_of (buffer b) (next_frame_number b)")
    case None
    then show ?thesis using "1.prems" by (subst add_frame_loop.simps) simp
  next
    case (Some f)
    have "frame_size (writer (b\<lparr>buffer := AList.delete (next_frame_number b) (buffer b),
              writer := writer_write env (writer b) f,
              next_frame_number := next_frame_number b + 1\<rparr>)) = Some d"
      using "1.prems" by (simp add: vw_write_frame_size)
    from "1.hyps" [OF Some this] Some show ?thesis
      by (subst add_frame_loop.simps) simp
  qed
qed

lemma result_step_ok:
  assumes "i < length tasks" and "frame_size (writer (sy_buffer s)) = Some d"
  shows "\<exists>s'. result_step w tasks orig props i r s = Inr s'
           \<and> frame_size (writer (sy_buffer s')) = Some d"
proof -
  have "py_index tasks (int i) = Inr (tasks ! i)"
    using assms(1) by (simp add: py_index_def)
  then show ?thesis
    using assms(2)
    by (simp add: result_step_def Let_def split_def add_frame_def add_frame_loop_keeps_size)
qed

lemma results_loop_ok:
  "i + length rs \<le> length tasks \<Longrightarrow> frame_size (writer (sy_buffer s)) = Some d \<Longrightarrow>
     \<exists>s'. results_loop w tasks orig props i rs s = Inr s'
       \<and> frame_size (writer (sy_buffer s')) = Some d"
proof (induction rs arbitrary: i s)
  case Nil
  then show ?case by simp
next
  case (Cons r rs)
  from Cons.prems have "i < length tasks" by simp
  from result_step_ok [OF this Cons.prems(2)]
  obtain s1 where s1: "result_step w tasks orig props i r s = Inr s1"
    and f1: "frame_size (writer (sy_buffer s1)) = Some d" by blast
  from Cons.prems have "(i + 1) + length rs \<le> length tasks" by simp
  from Cons.IH [OF this f1] s1 show ?case by simp
qed

lemma flush_loop_ok:
  "frame_size (writer b) = Some d \<Longrightarrow>
     \<exists>r. flush_loop (writer_write env) frame_size b tot n = Inr r"
proof (induction "writer_write env" "frame_size :: video_writer \<Rightarrow> (nat \<times> nat) option"
    b tot n rule: flush_loop.induct)
  case (1 b total_frames written)
  show ?case
  proof (cases "next_frame_number b < total_frames")
    case False
    then show ?thesis by (subst flush_loop.simps) simp
  next
    case True
    define pick where "pick =
      (case map_of (buffer b) (next_frame_number b) of
         Some buffered \<Rightarrow> (b\<lparr>buffer := AList.delete (next_frame_number b) (buffer b)\<rparr>, buffered)
       | None \<Rightarrow> (b, np_zeros (snd d) (fst d)))"
    have sel: "(case map_of (buffer b) (next_frame_number b) of
                 Some buffered \<Rightarrow>
                   Inr (b\<lparr>buffer := AList.delete (next_frame_number b) (buffer b)\<rparr>, buffered)
               | None \<Rightarrow>
                  (case frame_size (writer b) of
                     None \<Rightarrow> Inl TypeError
                   | Some s \<Rightarrow> Inr (b, np_zeros (snd s) (fst s)))) = Inr (fst pick, snd pick)"
      using "1.prems" by (simp add: pick_def split: option.splits)
    have w: "frame_size (writer (fst pick)) = Some d"
      using "1.prems" by (simp add: pick_def split: option.splits)
    have "frame_size (writer ((fst pick)\<lparr>writer := writer_write env (writer (fst pick)) (snd pick),
              next_frame_number := next_frame_number (fst pick) + 1\<rparr>)) = Some d"
      using w by (simp add: vw_write_frame_size)
    from "1.hyps" [OF True sel refl this] True sel show ?thesis
      by (subst flush_loop.simps) (simp add: split_def)
  qed
qed

lemma process_results_ok:
  assumes "length all_results \<le> length tasks"
  shows "\<exists>m'. process_results w m all_results tasks orig props out codec cb =
           Inr \<lparr>res_ok = True, res_output_path = out, res_metrics = get_summary w m'\<rparr>"
proof -
  let ?s0 = "\<lparr>sy_buffer = frame_buffer_init
                 (video_writer_init (Some (vp_width props, vp_height props))),
              sy_metrics = m, sy_printed = []\<rparr>"
  have "frame_size (writer (sy_buffer ?s0)) = Some (vp_width props, vp_height props)"
    by (simp add: frame_buffer_init_def video_writer_init_def)
  moreover have "0 + length all_results \<le> length tasks" using assms by simp
  ultimately obtain s where l: "results_loop w tasks orig props 0 all_results ?s0 = Inr s"
    and f: "frame_size (writer (sy_buffer s)) = Some (vp_width props, vp_height props)"
    using results_loop_ok [of 0 all_results tasks ?s0 _ w orig props] by blast
  from flush_loop_ok [OF f]
  obtain r where "flush_remaining (writer_write (cv w)) frame_size (sy_buffer s)
                    (vp_total_frames props) = Inr r"
    unfolding flush_remaining_def by blast
  with l show ?thesis
    by (auto simp: process_results_def process_results_sync_def Let_def)
qed

lemma redis_try_other_key:
  "\<forall>v. Set k v \<notin> set cmds \<Longrightarrow> kv (redis_try b cmds r) k = kv r k"
proof (induction cmds arbitrary: r)
  case Nil
  then show ?case by simp
next
  case (Cons cmd cmds)
  then have "kv (redis_apply cmd r) k = kv r k"
    by (cases cmd) auto
  with Cons show ?case by simp
qed

lemma metadata_no_progress_key:
  "k \<in> set (progress_keys sid) \<Longrightarrow> Set k v \<notin> set (metadata_cmds w sid first props)"
  by (auto simp: metadata_cmds_def progress_keys_def session_key_def split: sum.splits)

lemma completed_no_progress_key:
  "k \<in> set (progress_keys sid) \<Longrightarrow> Set k v \<notin> set (completed_cmds w sid)"
  by (auto simp: completed_cmds_def progress_keys_def session_key_def)

lemma serve_progress_keys:
  assumes "serve w first h = (r, h')" and k: "k \<in> set (progress_keys (session_id h))"
  shows "kv (store h') k = kv (store h) k"
proof -
  have a: "kv (redis_try (budget w) (metadata_cmds w (session_id h) first props) s) k = kv s k"
    for props s
    using metadata_no_progress_key [OF k] by (intro redis_try_other_key) simp
  have b: "kv (redis_try (budget w) (completed_cmds w (session_id h)) s) k = kv s k" for s
    using completed_no_progress_key [OF k] by (intro redis_try_other_key) simp
  from serve_store [OF assms(1)] show ?thesis
    by (auto simp: a b)
qed

lemma serve_no_progress:
  assumes "serve w first h = (r, h')"
  shows "filter is_progress (outbox (conn h')) = filter is_progress (outbox (conn h))
         \<and> session_id h' = session_id h"
  using assms
  by (auto simp: serve_def Let_def send_message_to_def conn_write_def make_result_def
      split: sum.splits prod.splits if_splits option.splits)

lemma handle_try_no_progress:
  assumes "handle_try w first h = (r, h')"
  shows "filter is_progress (outbox (conn h')) = filter is_progress (outbox (conn h))
         \<and> (\<forall>k \<in> set (progress_keys (session_id h)). kv (store h') k = kv (store h) k)"
proof (cases "not_a_handshake first")
  case (Inl e)
  with assms show ?thesis by (simp add: handle_try_def)
next
  case (Inr b)
  show ?thesis
  proof (cases b)
    case True
    with Inr assms show ?thesis
      by (auto simp: handle_try_def send_error_def send_message_to_def conn_write_def
          make_error_def split: if_splits)
  next
    case False
    obtain r1 h1 where ack:
      "send_message_to w h (make_handshake_ack True (session_id h) JNull) = (r1, h1)"
      by (cases "send_message_to w h (make_handshake_ack True (session_id h) JNull)")
    then have h1: "filter is_progress (outbox (conn h1)) = filter is_progress (outbox (conn h))"
      "store h1 = store h" "session_id h1 = session_id h"
      by (auto simp: send_message_to_def conn_write_def make_handshake_ack_def split: if_splits)
    show ?thesis
    proof (cases r1)
      case None
      with False Inr ack assms(1) have sv: "serve w first h1 = (r, h')"
        by (simp add: handle_try_def)
      from serve_no_progress [OF sv] serve_progress_keys [OF sv] h1 show ?thesis by simp
    next
      case (Some e)
      with False Inr ack assms h1 show ?thesis by (simp add: handle_try_def)
    qed
  qed
qed

text \<open>
  No run of \<open>handle\<close> writes a \<open>progress\<close> message to the client or stores a progress key
  of the session.
\<close>

lemma handle_publishes_no_progress:
  "filter is_progress (outbox (conn (snd (handle w first h))))
     = filter is_progress (outbox (conn h))
   \<and> map (kv (store (snd (handle w first h)))) (progress_keys (session_id h))
     = map (kv (store h)) (progress_keys (session_id h))"
proof -
  obtain r h1 where t: "handle_try w first h = (r, h1)"
    by (cases "handle_try w first h")
  from handle_try_no_progress [OF t]
  have a: "filter is_progress (outbox (conn h1)) = filter is_progress (outbox (conn h))"
    and b: "\<forall>k \<in> set (progress_keys (session_id h)). kv (store h1) k = kv (store h) k"
    by simp_all
  have "filter is_progress (outbox (conn (snd (handle w first h))))
          = filter is_progress (outbox (conn h1))
        \<and> store (snd (handle w first h)) = store h1"
    using t
    by (cases r) (auto simp: handle_def send_error_def send_message_to_def conn_write_def
        make_error_def split: if_splits)
  with a b show ?thesis by simp
qed

text \<open>
  Claim C2 says that a session of at least 30 frames sends a \<open>progress\<close> message before
  the \<open>result\<close> message and publishes its progress to the state store. In a session in
  which every step succeeds, whatever the number of frames, the handler writes exactly
  three items to the client: the acknowledgement of the handshake, the \<open>result\<close> message
  and the bytes of the video. The store receives the metadata of the session and the
  \<open>completed\<close> status, and none of the progress keys.
\<close>

theorem successful_session_sends_no_progress:
  assumes hs: "dict_get first ''type'' = Inr (Some (JString ''handshake''))"
    and pat: "patience w = None"
    and rv: "receive_video w = Inr video_path"
    and dt: "dispatch_tasks w = Inr (tasks, original_frames, props)"
    and gr: "get_celery_results w = Inr all_results"
    and len: "length all_results = length tasks"
    and rd: "read_video_file w (''output_'' @ session_id h @ ''.mp4'') = Inr video_data"
  shows "\<exists>m. outbox (conn (snd (handle w first h))) =
               outbox (conn h) @
               [Msg (make_handshake_ack True (session_id h) JNull),
                Msg (make_result True (''output_'' @ session_id h @ ''.mp4'')
                       (length video_data) (get_summary w m)),
                Raw video_data]
           \<and> fst (handle w first h) = None
           \<and> map (kv (store (snd (handle w first h)))) (progress_keys (session_id h))
               = map (kv (store h)) (progress_keys (session_id h))"
proof -
  obtain kvs where f: "first = JObject kvs" and ty: "map_of kvs ''type'' = Some (JString ''handshake'')"
    using hs by (cases first) auto
  from ty have "kvs \<noteq> []" by auto
  with f ty have nh: "not_a_handshake first = Inr False"
    by (simp add: not_a_handshake_def)
  have g: "dict_get_or first key dflt = Inr (case map_of kvs key of None \<Rightarrow> dflt | Some v \<Rightarrow> v)"
    for key dflt
    by (simp add: dict_get_or_def f split: option.splits)
  from len have "length all_results \<le> length tasks" by simp
  from process_results_ok [OF this, where w = w and orig = original_frames and props = props
      and cb = "progress_callback w" and out = "''output_'' @ session_id h @ ''.mp4''"
      and m = "set_total_frames (metrics_init (clock w 0)) (vp_total_frames props)"
      and codec = "case map_of kvs ''codec'' of None \<Rightarrow> JString ''mp4v'' | Some v \<Rightarrow> v"]
  obtain m where pr:
    "process_results w
       (set_total_frames (metrics_init (clock w 0)) (vp_total_frames props))
       all_results tasks original_frames props (''output_'' @ session_id h @ ''.mp4'')
       (case map_of kvs ''codec'' of None \<Rightarrow> JString ''mp4v'' | Some v \<Rightarrow> v)
       (progress_callback w) =
     Inr \<lparr>res_ok = True, res_output_path = ''output_'' @ session_id h @ ''.mp4'',
          res_metrics = get_summary w m\<rparr>"
    by blast
  have "outbox (conn (snd (handle w first h))) =
               outbox (conn h) @
               [Msg (make_handshake_ack True (session_id h) JNull),
                Msg (make_result True (''output_'' @ session_id h @ ''.mp4'')
                       (length video_data) (get_summary w m)),
                Raw video_data]
        \<and> fst (handle w first h) = None"
    using nh pat rv dt gr rd pr
    by (simp add: handle_def handle_try_def serve_def send_message_to_def conn_write_def
        writable_def g Let_def)
  with handle_publishes_no_progress [of w first h] show ?thesis by blast
qed

theorem successful_session_sends_no_progress_witness:
  "\<exists>n. outbox (conn (snd (handle thirty_world hello new_handler))) =
         [Msg (make_handshake_ack True ''1a2b3c4d'' JNull),
          Msg (make_result True ''output_1a2b3c4d.mp4'' 3
                 (JObject [(''frames_processed'', JInt n)])),
          Raw [0, 1, 2]]"
proof -
  have hs: "dict_get hello ''type'' = Inr (Some (JString ''handshake''))"
    by (simp add: hello_def)
  have pat: "patience thirty_world = None"
    and rv: "receive_video thirty_world = Inr ''input_1a2b3c4d.mp4''"
    and dt: "dispatch_tasks thirty_world =
               Inr (map int [0 ..< 30], (\<lambda>i. Some frame_a),
                    \<lparr>vp_fps = 30, vp_total_frames = 30, vp_width = 2, vp_height = 1\<rparr>)"
    and gr: "get_celery_results thirty_world = Inr thirty_frames"
    and rd: "read_video_file thirty_world (''output_'' @ session_id new_handler @ ''.mp4'')
               = Inr [0, 1, 2]"
    by (simp_all add: thirty_world_def)
  have len: "length thirty_frames = length (map int [0 ..< 30])"
    by (simp add: thirty_frames_def)
  from successful_session_sends_no_progress [OF hs pat rv dt gr len rd]
  obtain m where "outbox (conn (snd (handle thirty_world hello new_handler))) =
      outbox (conn new_handler) @
      [Msg (make_handshake_ack True (session_id new_handler) JNull),
       Msg (make_result True (''output_'' @ session_id new_handler @ ''.mp4'')
              (length [0 :: byte, 1, 2]) (get_summary thirty_world m)),
       Raw [0, 1, 2]]"
    by blast
  moreover have "get_summary thirty_world m
                   = JObject [(''frames_processed'', JInt (int (frames_processed m)))]"
    by (simp add: thirty_world_def)
  moreover have "session_id new_handler = ''1a2b3c4d''" "outbox (conn new_handler) = []"
    by (simp_all add: new_handler_def)
  ultimately have "outbox (conn (snd (handle thirty_world hello new_handler))) =
         [Msg (make_handshake_ack True ''1a2b3c4d'' JNull),
          Msg (make_result True ''output_1a2b3c4d.mp4'' 3
                 (JObject [(''frames_processed'', JInt (int (frames_processed m)))])),
          Raw [0, 1, 2]]"
    by (simp add: numeral_3_eq_3)
  then show ?thesis by (rule exI)
qed

section \<open>Properties of the worker\<close>

lemma decimal_digit: "n < 10 \<Longrightarrow> decimal n = [''0123456789'' ! n]"
  by (subst decimal.simps) simp

lemma format_06d_7: "format_06d 7 = ''000007''"
  by (simp add: format_06d_def zero_pad_def decimal_digit numeral_eq_Suc)

lemma exhausted_worker_sel:
  "imdecode exhausted_worker bs = Some frame_a"
  "run_filter exhausted_worker t m f = Inl ValueError"
  "imwrite exhausted_worker p f"
  "py_format exhausted_worker (JString s) = s"
  "request_retries exhausted_worker = 3"
  by (simp_all add: exhausted_worker_def)

lemma healthy_worker_sel:
  "imdecode healthy_worker bs = Some frame_a"
  "run_filter healthy_worker t m f = Inr (f, ''blur_gaussian'')"
  "imwrite healthy_worker p f"
  "py_format healthy_worker (JString s) = s"
  by (simp_all add: healthy_worker_def exhausted_worker_def)

text \<open>
  On success the model leaves the two files of the frame, as the code does.
\<close>

lemma success_leaves_two_files:
  "snd (process_frame healthy_worker Map.empty [1, 2, 3] 7 ''blur'' session_metadata) =
     [''/app/data/frames/1a2b3c4d/frame_000007.png'' \<mapsto> Png frame_a,
      ''/app/data/frames/1a2b3c4d/frame_000007.json'' \<mapsto>
         Json (success_stats healthy_worker ''blur_gaussian'')]"
  by (simp add: process_frame_def process_frame_try_def session_metadata_def
      apply_processing_def known_processing_def dict_get_or_def Let_def frame_file_def
      format_06d_7 healthy_worker_sel)

text \<open>
  Claim C5 says that every run of the task leaves the PNG file and the JSON file of the
  frame, also on a permanent failure. When the filter raises and the three retries are
  used up, the task saves the original frame as \<open>frame_000007.png\<close> and returns the stats
  with \<open>filter_applied = "error"\<close>, but it writes no \<open>frame_000007.json\<close>: the PNG file is the
  only file in the directory of the session.
\<close>

theorem permanent_failure_leaves_one_file:
  "process_frame exhausted_worker Map.empty [1, 2, 3] 7 ''blur'' session_metadata =
     (Inr (task_result ''/app/data/frames/1a2b3c4d/frame_000007.png'' 7
             (error_stats exhausted_worker ValueError)),
      [''/app/data/frames/1a2b3c4d/frame_000007.png'' \<mapsto> Png frame_a])
   \<and> dict_get (error_stats exhausted_worker ValueError) ''filter_applied''
       = Inr (Some (JString ''error''))"
  by (simp add: process_frame_def process_frame_try_def process_frame_except_def
      session_metadata_def apply_processing_def known_processing_def dict_get_or_def Let_def
      frame_file_def format_06d_7 max_retries_def error_stats_def exhausted_worker_sel)

end
